theory Spec2Isabelle
  imports
    Main
    "HOL-Library.Char_ord"
    "HOL-Library.List_Lexorder"
    "HOL-Library.Multiset"
    "HOL-Library.Mapping"
    "HOL-Library.AList_Mapping"
begin

section \<open>Errors (errors.go)\<close>

text \<open>
  The package has four sentinel errors, compared by identity, each carrying a message.
  Every other error that the client hands on comes from the Go standard library
  (net/url, net/http, encoding/json, time) and is kept with its message.
\<close>

datatype error =
    ErrNilResponse
  | ErrUnexpectedStatus
  | ErrNotFound
  | ErrUnprocessableEntity
  | URLError string
  | TransportError string
  | JSONError string
  | TimeParseError string

definition StatusOK :: int where
  "StatusOK = 200"

definition StatusNotFound :: int where
  "StatusNotFound = 404"

definition StatusUnprocessableEntity :: int where
  "StatusUnprocessableEntity = 422"

fun Error_msg :: "error \<Rightarrow> string" where
  "Error_msg ErrNilResponse = ''Unexpected nil response''"
| "Error_msg ErrUnexpectedStatus = ''Unexpected status''"
| "Error_msg ErrNotFound = ''Not Found''"
| "Error_msg ErrUnprocessableEntity = ''Unprocessable Entity''"
| "Error_msg (URLError m) = m"
| "Error_msg (TransportError m) = m"
| "Error_msg (JSONError m) = m"
| "Error_msg (TimeParseError m) = m"

text \<open>
  The part of \<^verbatim>\<open>http.Response\<close> that the client reads: the status code and the body
  (the bytes that the body stream delivers).
\<close>

record http_Response =
  StatusCode :: int
  Body :: string

text \<open>\<^verbatim>\<open>responseError\<close>: a nil response is \<open>None\<close>; a nil error is \<open>None\<close>.\<close>

fun responseError :: "http_Response option \<Rightarrow> error option" where
  "responseError None = Some ErrNilResponse"
| "responseError (Some resp) =
     (if StatusCode resp = StatusOK then None
      else if StatusCode resp = StatusNotFound then Some ErrNotFound
      else if StatusCode resp = StatusUnprocessableEntity then Some ErrUnprocessableEntity
      else Some ErrUnexpectedStatus)"


section \<open>Currencies (fixer.go)\<close>

text \<open>
  \<^verbatim>\<open>Currency\<close> is a string type and \<^verbatim>\<open>Currencies\<close> a slice of it. Go compares strings
  byte by byte, a proper prefix being smaller: the lexicographic order on \<open>char list\<close>.
  A nil slice and an empty slice are both the empty list.
\<close>

type_synonym Currency = string

type_synonym Currencies = "Currency list"

definition SEK :: Currency where "SEK = ''SEK''"
definition DKK :: Currency where "DKK = ''DKK''"
definition USD :: Currency where "USD = ''USD''"
definition EUR :: Currency where "EUR = ''EUR''"
definition GBP :: Currency where "GBP = ''GBP''"
definition AUD :: Currency where "AUD = ''AUD''"

text \<open>
  \<^verbatim>\<open>sort.Strings\<close> of the standard library sorts a slice of strings into increasing
  order. Equal strings cannot be told apart, so the result is the one sorted
  arrangement of the slice, which insertion sort computes.
\<close>

definition sort_Strings :: "string list \<Rightarrow> string list" where
  "sort_Strings symbols = sort symbols"

text \<open>\<^verbatim>\<open>strings.Join\<close> of the standard library.\<close>

fun strings_Join :: "string list \<Rightarrow> string \<Rightarrow> string" where
  "strings_Join [] sep = []"
| "strings_Join [s] sep = s"
| "strings_Join (s # t # ss) sep = s @ sep @ strings_Join (t # ss) sep"

text \<open>
  \<^verbatim>\<open>Currencies.String\<close>: the loop appends \<^verbatim>\<open>string(c)\<close> for each currency to an
  empty slice, which is then sorted and joined.
\<close>

definition Currencies_String :: "Currencies \<Rightarrow> string" where
  "Currencies_String cs =
     (let symbols = foldl (\<lambda>symbols c. symbols @ [c]) [] cs
      in strings_Join (sort_Strings symbols) '','')"


section \<open>Query parameter sets (net/url Values)\<close>

text \<open>
  \<^verbatim>\<open>url.Values\<close> is \<^verbatim>\<open>map[string][]string\<close>; the empty mapping is both the
  nil map and the map without keys. \<^verbatim>\<open>Get\<close> returns the first value of a
  key, or the empty string when the key is absent or has no values; \<^verbatim>\<open>Set\<close> replaces
  the values of a key by the one given.
\<close>

type_synonym Values = "(string, string list) mapping"

definition Values_Get :: "Values \<Rightarrow> string \<Rightarrow> string" where
  "Values_Get v key =
     (case Mapping.lookup v key of None \<Rightarrow> '''' | Some [] \<Rightarrow> '''' | Some (x # _) \<Rightarrow> x)"

definition Values_Set :: "Values \<Rightarrow> string \<Rightarrow> string \<Rightarrow> Values" where
  "Values_Set v key val = Mapping.update key [val] v"

text \<open>\<^verbatim>\<open>Base\<close> and \<^verbatim>\<open>Symbols\<close> (client.go).\<close>

definition Base :: "Currency \<Rightarrow> Values" where
  "Base c =
     (let v = Mapping.empty; s = c
      in if s \<noteq> '''' then Values_Set v ''base'' s else v)"

definition Symbols :: "Currency list \<Rightarrow> Values" where
  "Symbols cs =
     (let v = Mapping.empty; s = Currencies_String cs
      in if s \<noteq> '''' then Values_Set v ''symbols'' s else v)"

section \<open>Time values (package time of the standard library)\<close>

text \<open>
  A \<^verbatim>\<open>time.Time\<close> is an instant, counted in seconds and nanoseconds from
  1970-01-01T00:00:00Z, together with the location in which it is displayed.
  A location is \<^verbatim>\<open>time.UTC\<close>, a \<^verbatim>\<open>time.FixedZone\<close> with its name and its offset in
  seconds east of UTC, or a zone with transitions: its name, the offset in effect
  before the first transition, and the transitions in increasing order of time, each
  with the instant at which it happens and the offset in effect from then on.
  \<^verbatim>\<open>Location.lookup\<close> gives the offset in effect at an instant and the interval of
  instants over which that offset holds. A zone that goes on after its last transition
  by a rule of daylight saving, as zones of the time zone database may, is not among
  the values of this type: here the offset of the last transition stays in effect.
\<close>

datatype Location =
    UTC
  | FixedZone string int
  | LoadedZone string int "(int \<times> int) list"

definition alpha :: int where
  "alpha = - (2 ^ 63)"

definition omega :: int where
  "omega = 2 ^ 63 - 1"

fun lookup_tx :: "int \<Rightarrow> int \<Rightarrow> int \<Rightarrow> (int \<times> int) list \<Rightarrow> int \<times> int \<times> int" where
  "lookup_tx sec offset start [] = (offset, start, omega)"
| "lookup_tx sec offset start ((when, offset') # tx) =
     (if sec < when then (offset, start, when) else lookup_tx sec offset' when tx)"

fun Location_lookup :: "Location \<Rightarrow> int \<Rightarrow> int \<times> int \<times> int" where
  "Location_lookup UTC sec = (0, alpha, omega)"
| "Location_lookup (FixedZone name offset) sec = (offset, alpha, omega)"
| "Location_lookup (LoadedZone name offset tx) sec = lookup_tx sec offset alpha tx"

record Time =
  unixSec :: int
  nsec :: int
  loc :: Location

text \<open>The zero \<^verbatim>\<open>Time\<close> is January 1, year 1, 00:00:00 UTC.\<close>

definition zero_Time :: Time where
  "zero_Time = \<lparr>unixSec = - 62135596800, nsec = 0, loc = UTC\<rparr>"

text \<open>\<^verbatim>\<open>Time.UTC\<close> and \<^verbatim>\<open>Time.In\<close>: the same instant, displayed in another location.\<close>

definition Time_In :: "Time \<Rightarrow> Location \<Rightarrow> Time" where
  "Time_In t l = t\<lparr>loc := l\<rparr>"

definition Time_UTC :: "Time \<Rightarrow> Time" where
  "Time_UTC t = Time_In t UTC"

definition secondsPerDay :: int where
  "secondsPerDay = 86400"

definition daysPer400Years :: int where
  "daysPer400Years = 146097"

definition daysPer100Years :: int where
  "daysPer100Years = 36524"

definition daysPer4Years :: int where
  "daysPer4Years = 1461"

text \<open>Days from January 1, year 1 to January 1, 1970.\<close>

definition unixEpochDays :: int where
  "unixEpochDays = 719162"

definition isLeap :: "int \<Rightarrow> bool" where
  "isLeap year = (year mod 4 = 0 \<and> (year mod 100 \<noteq> 0 \<or> year mod 400 = 0))"

text \<open>\<^verbatim>\<open>daysBefore[m]\<close>: the days of a non-leap year before month \<open>m + 1\<close> starts.\<close>

definition daysBefore :: "int \<Rightarrow> int" where
  "daysBefore m =
     (if m \<le> 0 then 0 else if m = 1 then 31 else if m = 2 then 59 else if m = 3 then 90
      else if m = 4 then 120 else if m = 5 then 151 else if m = 6 then 181
      else if m = 7 then 212 else if m = 8 then 243 else if m = 9 then 273
      else if m = 10 then 304 else if m = 11 then 334 else 365)"

definition daysIn :: "int \<Rightarrow> int \<Rightarrow> int" where
  "daysIn m year =
     (if m = 2 \<and> isLeap year then 29 else daysBefore m - daysBefore (m - 1))"

text \<open>
  \<^verbatim>\<open>Time.abs\<close>: the seconds of the instant shifted by the offset of its location.
  The library counts them from a distant epoch in an unsigned integer of 64 bits, so
  that they are never negative, and wraps around at the ends of that range; here they
  are counted from 1970 in the integers, and division rounds down. The two counts
  name the same day for the times of \<open>no_overflow\<close> below.
\<close>

definition Time_abs :: "Time \<Rightarrow> int" where
  "Time_abs t = unixSec t + fst (Location_lookup (loc t) (unixSec t))"

text \<open>
  \<^verbatim>\<open>absDate\<close>: year, month and day of a day number (days since 1970-01-01), by
  cutting off cycles of 400, 100, 4 and 1 years; the last cycle of each kind has one
  more year or day in it, hence \<open>n - n div 4\<close>.
\<close>

definition absDate :: "int \<Rightarrow> int \<times> int \<times> int" where
  "absDate days =
     (let d = days + unixEpochDays;
          n400 = d div daysPer400Years;
          d = d - daysPer400Years * n400;
          n100 = d div daysPer100Years;
          n100 = n100 - n100 div 4;
          d = d - daysPer100Years * n100;
          n4 = d div daysPer4Years;
          d = d - daysPer4Years * n4;
          n = d div 365;
          n = n - n div 4;
          d = d - 365 * n;
          year = 400 * n400 + 100 * n100 + 4 * n4 + n + 1;
          yday = d
      in if isLeap year \<and> yday = 31 + 29 - 1 then (year, 2, 29)
         else
           let day = (if isLeap year \<and> yday > 31 + 29 - 1 then yday - 1 else yday);
               month = day div 31;
               end = daysBefore (month + 1)
           in if day \<ge> end then (year, month + 2, day - end + 1)
              else (year, month + 1, day - daysBefore month + 1))"

text \<open>\<^verbatim>\<open>Time.Date\<close>: year, month and day in which the instant falls in its location.\<close>

definition Time_Date :: "Time \<Rightarrow> int \<times> int \<times> int" where
  "Time_Date t = absDate (Time_abs t div secondsPerDay)"

text \<open>
  \<^verbatim>\<open>time.Date\<close>: month, nanoseconds, seconds, minutes and hours are normalised,
  overflowing into the next unit; the days before the year, before the month and
  before the day are added up; the offset of the location is taken off. The library
  adds up in 64 bits and wraps around, here the sums are integers: the two agree as
  long as the seconds of the result stay in the range of \<open>no_overflow\<close> below, as
  they do for a year and an offset of \<open>fits_int32\<close>.
\<close>

definition daysSinceEpoch :: "int \<Rightarrow> int" where
  "daysSinceEpoch year =
     (let y = year - 1;
          n = y div 400;
          y = y - 400 * n;
          d = daysPer400Years * n;
          n = y div 100;
          y = y - 100 * n;
          d = d + daysPer100Years * n;
          n = y div 4;
          y = y - 4 * n;
          d = d + daysPer4Years * n;
          d = d + 365 * y
      in d - unixEpochDays)"

definition norm :: "int \<Rightarrow> int \<Rightarrow> int \<Rightarrow> int \<times> int" where
  "norm hi lo base = (hi + lo div base, lo mod base)"

definition time_Date ::
  "int \<Rightarrow> int \<Rightarrow> int \<Rightarrow> int \<Rightarrow> int \<Rightarrow> int \<Rightarrow> int \<Rightarrow> Location \<Rightarrow> Time" where
  "time_Date year month day hour minute sec nanos l =
     (let (year, m) = norm year (month - 1) 12;
          month = m + 1;
          (sec, nanos) = norm sec nanos 1000000000;
          (minute, sec) = norm minute sec 60;
          (hour, minute) = norm hour minute 60;
          (day, hour) = norm day hour 24;
          d = daysSinceEpoch year + daysBefore (month - 1);
          d = (if isLeap year \<and> month \<ge> 3 then d + 1 else d);
          d = d + (day - 1);
          unix = d * secondsPerDay + (hour * 3600 + minute * 60 + sec);
          unix =
            (case l of
               UTC \<Rightarrow> unix
             | _ \<Rightarrow>
               (case Location_lookup l unix of (offset, start, end) \<Rightarrow>
                  if offset \<noteq> 0 then
                    let utc = unix - offset;
                        offset = (if utc < start \<or> utc \<ge> end
                                  then fst (Location_lookup l utc) else offset)
                    in unix - offset
                  else unix))
      in \<lparr>unixSec = unix, nsec = nanos, loc = l\<rparr>)"

text \<open>
  The range in which the integers of this section are those of the library. A
  \<^verbatim>\<open>time.Time\<close> keeps its seconds in 64 bits, and \<^verbatim>\<open>Time.abs\<close>, \<^verbatim>\<open>time.Date\<close> and
  \<^verbatim>\<open>appendInt\<close> add constants of the size of \<open>2 ^ 63\<close> to them or negate them. For a
  time whose seconds, as an instant and shifted by the offset of its location, lie
  between \<open>- (2 ^ 62)\<close> and \<open>2 ^ 62\<close>, which is more than a hundred thousand million
  years on either side of 1970, none of these sums leaves the 64 bits. Outside this
  range the library wraps around and the definitions above say nothing about it.
\<close>

definition no_overflow :: "Time \<Rightarrow> bool" where
  "no_overflow t \<longleftrightarrow>
     - (2 ^ 62) \<le> unixSec t \<and> unixSec t < 2 ^ 62
     \<and> - (2 ^ 62) \<le> Time_abs t \<and> Time_abs t < 2 ^ 62"

definition fits_int32 :: "int \<Rightarrow> bool" where
  "fits_int32 x \<longleftrightarrow> - (2 ^ 31) \<le> x \<and> x < 2 ^ 31"

text \<open>
  \<^verbatim>\<open>appendInt\<close>: the decimal digits of an integer, padded with zeros on the left to
  a width, after a minus sign when it is negative.
\<close>

fun digits :: "nat \<Rightarrow> string" where
  "digits n =
     (if n < 10 then [char_of (48 + n)]
      else digits (n div 10) @ [char_of (48 + n mod 10)])"

definition appendInt :: "int \<Rightarrow> nat \<Rightarrow> string" where
  "appendInt x width =
     (let ds = digits (nat \<bar>x\<bar>)
      in (if x < 0 then ''-'' else '''') @ replicate (width - length ds) (CHR ''0'') @ ds)"

text \<open>
  \<^verbatim>\<open>Time.Format\<close> with the layout \<^verbatim>\<open>"2006-01-02"\<close>: the year in at least four
  digits, the month and the day in two, of the date in the location of the time.
\<close>

definition Format_2006_01_02 :: "Time \<Rightarrow> string" where
  "Format_2006_01_02 t =
     (case Time_Date t of (year, month, day) \<Rightarrow>
        appendInt year 4 @ ''-'' @ appendInt month 2 @ ''-'' @ appendInt day 2)"

text \<open>
  \<^verbatim>\<open>time.ParseInLocation\<close> with the layout \<^verbatim>\<open>"2006-01-02"\<close>. The parser of the
  library walks through the layout: a year of four digits, the text \<^verbatim>\<open>-\<close>, a month
  of two digits between 1 and 12, the text \<^verbatim>\<open>-\<close>, a day of two digits, and nothing
  after it; the day is then checked against the length of the month.
\<close>

definition isDigit :: "string \<Rightarrow> nat \<Rightarrow> bool" where
  "isDigit s i =
     (if length s \<le> i then False
      else let c = s ! i in (48::nat) \<le> of_char c \<and> of_char c \<le> (57::nat))"

fun leadingInt :: "int \<Rightarrow> string \<Rightarrow> (int \<times> string) option" where
  "leadingInt x [] = Some (x, [])"
| "leadingInt x (c # s) =
     (if (of_char c :: nat) < 48 \<or> (of_char c :: nat) > 57 then Some (x, c # s)
      else if x > 2 ^ 63 div 10 then None
      else let x = x * 10 + int (of_char c) - 48
           in if x > 2 ^ 63 then None else leadingInt x s)"

definition atoi :: "string \<Rightarrow> int option" where
  "atoi s =
     (let neg = (s \<noteq> [] \<and> hd s = CHR ''-'');
          s = (if s \<noteq> [] \<and> (hd s = CHR ''-'' \<or> hd s = CHR ''+'') then tl s else s)
      in case leadingInt 0 s of
           None \<Rightarrow> None
         | Some (q, rem) \<Rightarrow>
             if rem \<noteq> [] then None else Some (if neg then - q else q))"

definition getnum :: "string \<Rightarrow> bool \<Rightarrow> (int \<times> string) option" where
  "getnum s fixed =
     (if \<not> isDigit s 0 then None
      else if \<not> isDigit s 1 then
        (if fixed then None else Some (int (of_char (s ! 0)) - 48, drop 1 s))
      else Some ((int (of_char (s ! 0)) - 48) * 10 + (int (of_char (s ! 1)) - 48), drop 2 s))"

text \<open>\<^verbatim>\<open>skip\<close>, for a prefix without spaces.\<close>

fun skip :: "string \<Rightarrow> string \<Rightarrow> string option" where
  "skip val [] = Some val"
| "skip [] (p # prefix) = None"
| "skip (v # val) (p # prefix) = (if v \<noteq> p then None else skip val prefix)"

definition time_ParseInLocation_2006_01_02 :: "string \<Rightarrow> Location \<Rightarrow> error + Time" where
  "time_ParseInLocation_2006_01_02 val l =
     (if length val < 4 \<or> \<not> isDigit val 0 then Inl (TimeParseError ''cannot parse year'')
      else
        case atoi (take 4 val) of
          None \<Rightarrow> Inl (TimeParseError ''cannot parse year'')
        | Some year \<Rightarrow>
        (case skip (drop 4 val) ''-'' of
          None \<Rightarrow> Inl (TimeParseError ''cannot parse separator'')
        | Some val \<Rightarrow>
        (case getnum val True of
          None \<Rightarrow> Inl (TimeParseError ''cannot parse month'')
        | Some (month, val) \<Rightarrow>
        if month \<le> 0 \<or> 12 < month then Inl (TimeParseError ''month out of range'')
        else
        (case skip val ''-'' of
          None \<Rightarrow> Inl (TimeParseError ''cannot parse separator'')
        | Some val \<Rightarrow>
        (case getnum val True of
          None \<Rightarrow> Inl (TimeParseError ''cannot parse day'')
        | Some (day, val) \<Rightarrow>
        if length val \<noteq> 0 then Inl (TimeParseError ''extra text'')
        else if day < 1 \<or> day > daysIn month year
        then Inl (TimeParseError ''day out of range'')
        else Inr (time_Date year month day 0 0 0 0 l))))))"


section \<open>Dates and responses (fixer.go)\<close>

text \<open>
  The JSON values. What \<^verbatim>\<open>encoding/json\<close> makes of a sequence of bytes, a value or
  a syntax error, is left to the library (see \<open>json_parse\<close> below).
\<close>

datatype json =
    JNull
  | JBool bool
  | JNumber string
  | JString string
  | JArray "json list"
  | JObject "(string \<times> json) list"

text \<open>\<^verbatim>\<open>Date\<close> wraps a \<^verbatim>\<open>time.Time\<close>.\<close>

record Date =
  Time :: Time

definition zero_Date :: Date where
  "zero_Date = \<lparr>Time = zero_Time\<rparr>"

typedecl float64

type_synonym Rates = "Currency \<rightharpoonup> float64"

type_synonym Links = "string \<rightharpoonup> string"

record Response =
  Response_Base :: Currency
  Response_Date :: Date
  Response_Rates :: Rates
  Response_Links :: Links

section \<open>The standard library as the client uses it\<close>

text \<open>
  \<^verbatim>\<open>url.URL\<close>, without the user information, and the part of \<^verbatim>\<open>http.Request\<close>
  that the client sets.
\<close>

record URL =
  Scheme :: string
  Opaque :: string
  Host :: string
  Path :: string
  RawQuery :: string
  Fragment :: string

datatype Context = Background | Derived nat

type_synonym Header = "string \<rightharpoonup> string list"

definition Header_Add :: "Header \<Rightarrow> string \<Rightarrow> string \<Rightarrow> Header" where
  "Header_Add h key val = h(key \<mapsto> (case h key of None \<Rightarrow> [val] | Some vs \<Rightarrow> vs @ [val]))"

record Request =
  Method :: string
  Request_URL :: URL
  Request_Header :: Header
  Request_Context :: Context

text \<open>
  The functions of the standard library whose results the client only passes on are
  parameters of the model:
  \<^item> \<open>url_Parse\<close>, \<open>URL_String\<close>, \<open>URL_ResolveReference\<close>, \<open>Values_Encode\<close> of net/url;
  \<^item> \<open>http_NewRequest\<close> of net/http, and \<open>DefaultTransport\<close>, the round trip of a
    client that was given no other transport: an error, or the response received;
  \<^item> \<open>json_Decode\<close>, decoding a body into a fresh \<^verbatim>\<open>Response\<close>, and \<open>json_parse\<close>,
    the JSON value that a sequence of bytes denotes, of encoding/json;
  \<^item> \<open>os_Getenv\<close>.
  Each returns either an error or a result, as the library documents.
\<close>

record stdlib =
  url_Parse :: "string \<Rightarrow> error + URL"
  URL_String :: "URL \<Rightarrow> string"
  URL_ResolveReference :: "URL \<Rightarrow> URL \<Rightarrow> URL"
  Values_Encode :: "Values \<Rightarrow> string"
  http_NewRequest :: "string \<Rightarrow> string \<Rightarrow> error + Request"
  DefaultTransport :: "Request \<Rightarrow> error + http_Response"
  json_Decode :: "string \<Rightarrow> error + Response"
  json_parse :: "string \<Rightarrow> error + json"
  os_Getenv :: "string \<Rightarrow> string"

text \<open>
  \<^verbatim>\<open>http.Client\<close>: its timeout in nanoseconds and its round trip. \<^verbatim>\<open>Client.Do\<close>
  returns an error or a response, never neither.
\<close>

record http_Client =
  Timeout :: int
  Transport :: "Request \<Rightarrow> error + http_Response"

definition Second :: int where
  "Second = 1000000000"

definition http_Client_Do :: "http_Client \<Rightarrow> Request \<Rightarrow> error + http_Response" where
  "http_Client_Do hc req = Transport hc req"

text \<open>
  \<^verbatim>\<open>json.Unmarshal\<close> into a string variable: a JSON string is stored, \<^verbatim>\<open>null\<close>
  leaves the variable as it is without an error, and any other value or a syntax
  error is an error and leaves the variable as it is.
\<close>

definition json_Unmarshal_string :: "stdlib \<Rightarrow> string \<Rightarrow> string \<Rightarrow> string \<times> error option" where
  "json_Unmarshal_string std b val =
     (case json_parse std b of
        Inl err \<Rightarrow> (val, Some err)
      | Inr JNull \<Rightarrow> (val, None)
      | Inr (JString s) \<Rightarrow> (s, None)
      | Inr _ \<Rightarrow> (val, Some (JSONError ''cannot unmarshal into Go value of type string'')))"

text \<open>
  \<^verbatim>\<open>Date.UnmarshalJSON\<close>: the receiver is passed in and returned, with the error
  (\<open>None\<close> for nil).
\<close>

definition UnmarshalJSON :: "stdlib \<Rightarrow> Date \<Rightarrow> string \<Rightarrow> Date \<times> error option" where
  "UnmarshalJSON std d b =
     (let val = ''''
      in case json_Unmarshal_string std b val of
           (val, Some err) \<Rightarrow> (d, Some err)
         | (val, None) \<Rightarrow>
             (case time_ParseInLocation_2006_01_02 val UTC of
                Inl err \<Rightarrow> (d, Some err)
              | Inr t \<Rightarrow> (\<lparr>Time = t\<rparr>, None)))"


section \<open>The client (client.go)\<close>

text \<open>
  The HTTP client and the base URL of a \<^verbatim>\<open>Client\<close> are pointers that \<^verbatim>\<open>NewClient\<close>
  sets; a client here is one in which both are set.
\<close>

record Client =
  httpClient :: http_Client
  baseURL :: URL
  accessKey :: string
  userAgent :: string

definition HTTPClient :: "http_Client \<Rightarrow> Client \<Rightarrow> Client" where
  "HTTPClient hc c = c\<lparr>httpClient := hc\<rparr>"

definition BaseURL :: "stdlib \<Rightarrow> string \<Rightarrow> Client \<Rightarrow> Client" where
  "BaseURL std rawurl c =
     (case url_Parse std rawurl of
        Inr u \<Rightarrow> c\<lparr>baseURL := u\<rparr>
      | Inl err \<Rightarrow> c)"

definition AccessKey :: "string \<Rightarrow> Client \<Rightarrow> Client" where
  "AccessKey ak c = c\<lparr>accessKey := ak\<rparr>"

definition UserAgent :: "string \<Rightarrow> Client \<Rightarrow> Client" where
  "UserAgent ua c = c\<lparr>userAgent := ua\<rparr>"

definition NewClient :: "stdlib \<Rightarrow> (Client \<Rightarrow> Client) list \<Rightarrow> Client" where
  "NewClient std options =
     (let c = \<lparr>httpClient = \<lparr>Timeout = 20 * Second, Transport = DefaultTransport std\<rparr>,
               baseURL = \<lparr>Scheme = ''http'', Opaque = '''', Host = ''data.fixer.io'',
                          Path = ''/api'', RawQuery = '''', Fragment = ''''\<rparr>,
               accessKey = '''',
               userAgent = ''fixer/client.go (https://github.com/peterhellberg/fixer)''\<rparr>
      in foldl (\<lambda>c f. f c) c options)"

definition FixerClient :: "stdlib \<Rightarrow> Client" where
  "FixerClient std = NewClient std [AccessKey (os_Getenv std ''FIXER_ACCESS_KEY'')]"

definition ExratesClient :: "stdlib \<Rightarrow> Client" where
  "ExratesClient std = NewClient std [BaseURL std ''https://api.exchangeratesapi.io'']"

definition DefaultClient :: "stdlib \<Rightarrow> Client" where
  "DefaultClient std = FixerClient std"

definition date :: "Client \<Rightarrow> Time \<Rightarrow> string" where
  "date c t = Format_2006_01_02 t"

text \<open>\<^verbatim>\<open>query\<close>: the loop over the attributes, starting from an empty parameter set.\<close>

definition query :: "Client \<Rightarrow> Values list \<Rightarrow> Values" where
  "query c attributes =
     foldl (\<lambda>v a.
        let base = Values_Get a ''base'';
            v = (if base \<noteq> '''' then Values_Set v ''base'' base else v);
            symbols = Values_Get a ''symbols'';
            v = (if symbols \<noteq> '''' then Values_Set v ''symbols'' symbols else v)
        in v) Mapping.empty attributes"

text \<open>
  \<^verbatim>\<open>request\<close>. A Go function returns a pair of a pointer and an error, each of which
  may be nil (\<open>None\<close>). The parameter set is a map, which \<^verbatim>\<open>request\<close> updates before
  encoding it: \<open>request_query\<close> is the parameter set that is encoded.
\<close>

definition request_query :: "Client \<Rightarrow> Values \<Rightarrow> Values" where
  "request_query c vals =
     (if accessKey c \<noteq> '''' then Values_Set vals ''access_key'' (accessKey c) else vals)"

definition request ::
  "stdlib \<Rightarrow> Client \<Rightarrow> Context \<Rightarrow> string \<Rightarrow> Values \<Rightarrow> Request option \<times> error option" where
  "request std c ctx path vals =
     (let rawurl = Path (baseURL c) @ path;
          vals = request_query c vals;
          rawurl = (if \<not> Mapping.is_empty vals then rawurl @ ''?'' @ Values_Encode std vals
                    else rawurl)
      in case url_Parse std rawurl of
           Inl err \<Rightarrow> (None, Some err)
         | Inr rel \<Rightarrow>
             (case http_NewRequest std ''GET''
                     (URL_String std (URL_ResolveReference std (baseURL c) rel)) of
                Inl err \<Rightarrow> (None, Some err)
              | Inr req \<Rightarrow>
                  let req = req\<lparr>Request_Context := ctx\<rparr>;
                      req = req\<lparr>Request_Header :=
                              Header_Add (Request_Header req) ''Accept'' ''application/json''\<rparr>;
                      req = req\<lparr>Request_Header :=
                              Header_Add (Request_Header req) ''User-Agent'' (userAgent c)\<rparr>
                  in (Some req, None)))"

text \<open>
  \<^verbatim>\<open>do\<close>. The deferred function reads up to 64 bytes of what is left of the body
  and closes it, which changes nothing in what is returned.
\<close>

definition do :: "stdlib \<Rightarrow> Client \<Rightarrow> Request \<Rightarrow> Response option \<times> error option" where
  "do std c req =
     (case http_Client_Do (httpClient c) req of
        Inl err \<Rightarrow> (None, Some err)
      | Inr resp \<Rightarrow>
          (case responseError (Some resp) of
             Some err \<Rightarrow> (None, Some err)
           | None \<Rightarrow>
               (case json_Decode std (Body resp) of
                  Inl err \<Rightarrow> (None, Some err)
                | Inr r \<Rightarrow> (Some r, None))))"

text \<open>
  \<^verbatim>\<open>get\<close>. Where the error is nil, \<^verbatim>\<open>get\<close> goes on to use the pointer returned with
  it; were that pointer nil as well, the program would panic.
\<close>

datatype 'a outcome = Panics | Returns 'a

definition get ::
  "stdlib \<Rightarrow> Client \<Rightarrow> Context \<Rightarrow> string \<Rightarrow> Values \<Rightarrow> (Response option \<times> error option) outcome" where
  "get std c ctx path vals =
     (case request std c ctx path vals of
        (_, Some err) \<Rightarrow> Returns (None, Some err)
      | (None, None) \<Rightarrow> Panics
      | (Some req, None) \<Rightarrow>
          (case do std c req of
             (_, Some err) \<Rightarrow> Returns (None, Some err)
           | (None, None) \<Rightarrow> Panics
           | (Some r, None) \<Rightarrow>
               Returns
                 (Some (r\<lparr>Response_Links :=
                            [''base'' \<mapsto> URL_String std (baseURL c),
                             ''self'' \<mapsto> URL_String std (Request_URL req)]\<rparr>),
                  None)))"

definition Client_Latest ::
  "stdlib \<Rightarrow> Client \<Rightarrow> Context \<Rightarrow> Values list \<Rightarrow> (Response option \<times> error option) outcome" where
  "Client_Latest std c ctx attributes = get std c ctx ''/latest'' (query c attributes)"

definition Client_At ::
  "stdlib \<Rightarrow> Client \<Rightarrow> Context \<Rightarrow> Time \<Rightarrow> Values list
     \<Rightarrow> (Response option \<times> error option) outcome" where
  "Client_At std c ctx t attributes = get std c ctx (''/'' @ date c t) (query c attributes)"

text \<open>\<^verbatim>\<open>Latest\<close> and \<^verbatim>\<open>At\<close> of the package, on the default client.\<close>

definition Latest ::
  "stdlib \<Rightarrow> Context \<Rightarrow> Values list \<Rightarrow> (Response option \<times> error option) outcome" where
  "Latest std ctx attributes = Client_Latest std (DefaultClient std) ctx attributes"

definition At ::
  "stdlib \<Rightarrow> Context \<Rightarrow> Time \<Rightarrow> Values list \<Rightarrow> (Response option \<times> error option) outcome" where
  "At std ctx t attributes = Client_At std (DefaultClient std) ctx t attributes"

section \<open>Notions used to state the properties\<close>

text \<open>
  A string in the form YYYY-MM-DD: ten characters, a year of four digits, a month of
  two and a day of two, separated by \<^verbatim>\<open>-\<close>, that name a day of the calendar. The
  lengths of the months are written out here on their own.
\<close>

definition is_digit :: "char \<Rightarrow> bool" where
  "is_digit c = (CHR ''0'' \<le> c \<and> c \<le> CHR ''9'')"

definition digit_value :: "char \<Rightarrow> int" where
  "digit_value c = int (of_char c) - int (of_char (CHR ''0''))"

definition leap_year :: "int \<Rightarrow> bool" where
  "leap_year y = (4 dvd y \<and> (\<not> 100 dvd y \<or> 400 dvd y))"

definition days_in_month :: "int \<Rightarrow> int \<Rightarrow> int" where
  "days_in_month y m =
     (if m = 2 then (if leap_year y then 29 else 28)
      else if m = 4 \<or> m = 6 \<or> m = 9 \<or> m = 11 then 30 else 31)"

definition YYYY_MM_DD :: "string \<Rightarrow> (int \<times> int \<times> int) option" where
  "YYYY_MM_DD s =
     (if length s = 10 \<and> list_all (\<lambda>i. is_digit (s ! i)) [0, 1, 2, 3, 5, 6, 8, 9]
         \<and> s ! 4 = CHR ''-'' \<and> s ! 7 = CHR ''-''
      then
        let y = 1000 * digit_value (s ! 0) + 100 * digit_value (s ! 1)
                  + 10 * digit_value (s ! 2) + digit_value (s ! 3);
            m = 10 * digit_value (s ! 5) + digit_value (s ! 6);
            d = 10 * digit_value (s ! 8) + digit_value (s ! 9)
        in if 1 \<le> m \<and> m \<le> 12 \<and> 1 \<le> d \<and> d \<le> days_in_month y m
           then Some (y, m, d) else None
      else None)"

text \<open>
  The last non-empty value that a sequence of parameter sets has for a key, if there
  is one.
\<close>

definition last_nonempty :: "string \<Rightarrow> Values list \<Rightarrow> string option" where
  "last_nonempty key attributes =
     (case filter (\<lambda>s. s \<noteq> '''') (map (\<lambda>a. Values_Get a key) attributes) of
        [] \<Rightarrow> None
      | vs \<Rightarrow> Some (last vs))"


section \<open>A test server and client\<close>

text \<open>
  Stand-ins for the standard library and for the server, after
  \<^verbatim>\<open>testServerAndClient\<close> of client_test.go, on which the theorems below are run.
  They handle the URLs, parameter sets and bodies of the tests: URLs that are a path
  with an optional query, alone or after \<^verbatim>\<open>http://\<close> and a host, without escapes.
\<close>

definition test_url_Parse :: "string \<Rightarrow> error + URL" where
  "test_url_Parse rawurl =
     (let pathOf = takeWhile (\<lambda>c. c \<noteq> CHR ''?'');
          queryOf = (\<lambda>s. drop 1 (dropWhile (\<lambda>c. c \<noteq> CHR ''?'') s))
      in if take 7 rawurl = ''http://'' then
           let rest = drop 7 rawurl;
               host = takeWhile (\<lambda>c. c \<noteq> CHR ''/'' \<and> c \<noteq> CHR ''?'') rest;
               rest = dropWhile (\<lambda>c. c \<noteq> CHR ''/'' \<and> c \<noteq> CHR ''?'') rest
           in Inr \<lparr>Scheme = ''http'', Opaque = '''', Host = host, Path = pathOf rest,
                    RawQuery = queryOf rest, Fragment = ''''\<rparr>
         else if take 1 rawurl = ''/'' then
           Inr \<lparr>Scheme = '''', Opaque = '''', Host = '''', Path = pathOf rawurl,
                 RawQuery = queryOf rawurl, Fragment = ''''\<rparr>
         else Inl (URLError ''missing protocol scheme''))"

definition test_URL_String :: "URL \<Rightarrow> string" where
  "test_URL_String u =
     (if Scheme u \<noteq> '''' then Scheme u @ ''://'' else '''') @ Host u @ Path u
       @ (if RawQuery u \<noteq> '''' then ''?'' @ RawQuery u else '''')"

definition test_ResolveReference :: "URL \<Rightarrow> URL \<Rightarrow> URL" where
  "test_ResolveReference base ref =
     (if Scheme ref \<noteq> '''' then ref else ref\<lparr>Scheme := Scheme base, Host := Host base\<rparr>)"

definition test_QueryEscape :: "string \<Rightarrow> string" where
  "test_QueryEscape s =
     concat (map (\<lambda>c.
        let n = (of_char c :: nat)
        in if (48 \<le> n \<and> n \<le> 57) \<or> (65 \<le> n \<and> n \<le> 90) \<or> (97 \<le> n \<and> n \<le> 122)
              \<or> c \<in> set ''-_.~'' then [c]
           else if c = CHR '' '' then ''+''
           else [CHR ''%'', ''0123456789ABCDEF'' ! (n div 16), ''0123456789ABCDEF'' ! (n mod 16)]) s)"

definition test_Encode :: "Values \<Rightarrow> string" where
  "test_Encode v =
     strings_Join
       (concat (map (\<lambda>k. case Mapping.lookup v k of
                           None \<Rightarrow> []
                         | Some vs \<Rightarrow> map (\<lambda>x. k @ ''='' @ test_QueryEscape x) vs)
                  [''access_key'', ''base'', ''symbols''])) ''&''"

definition test_NewRequest :: "string \<Rightarrow> string \<Rightarrow> error + Request" where
  "test_NewRequest method rawurl =
     (case test_url_Parse rawurl of
        Inl err \<Rightarrow> Inl err
      | Inr u \<Rightarrow> Inr \<lparr>Method = method, Request_URL = u, Request_Header = Map.empty,
                       Request_Context = Background\<rparr>)"

definition test_body_EUR :: string where
  \<open>test_body_EUR = ''{"base":"EUR","date":"2012-03-28"}''\<close>

definition test_body_SEK :: string where
  \<open>test_body_SEK =
     ''{"base":"SEK","date":"2016-02-12","links":{"self":"http://example.com/"}}''\<close>

definition test_Transport :: "Request \<Rightarrow> error + http_Response" where
  "test_Transport req =
     (let u = Request_URL req;
          uri = Path u @ (if RawQuery u \<noteq> '''' then ''?'' @ RawQuery u else '''')
      in if Host u = ''down.invalid'' then Inl (TransportError ''no such host'')
         else if uri = ''/latest'' then Inr \<lparr>StatusCode = 200, Body = test_body_EUR\<rparr>
         else if uri = ''/latest?base=SEK&symbols=GBP%2CUSD''
           then Inr \<lparr>StatusCode = 200, Body = test_body_SEK\<rparr>
         else if uri = ''/2012-03-28'' then Inr \<lparr>StatusCode = 200, Body = test_body_EUR\<rparr>
         else if uri = ''/1999-12-31'' then Inr \<lparr>StatusCode = 422, Body = ''''\<rparr>
         else if uri = ''/2000-01-01'' then Inr \<lparr>StatusCode = 200, Body = ''NOT JSON''\<rparr>
         else Inr \<lparr>StatusCode = 404, Body = ''''\<rparr>)"

definition test_Decode :: "string \<Rightarrow> error + Response" where
  "test_Decode body =
     (if body = test_body_EUR then
        Inr \<lparr>Response_Base = EUR,
              Response_Date = \<lparr>Time = time_Date 2012 3 28 0 0 0 0 UTC\<rparr>,
              Response_Rates = Map.empty, Response_Links = Map.empty\<rparr>
      else if body = test_body_SEK then
        Inr \<lparr>Response_Base = SEK,
              Response_Date = \<lparr>Time = time_Date 2016 2 12 0 0 0 0 UTC\<rparr>,
              Response_Rates = Map.empty,
              Response_Links = [''self'' \<mapsto> ''http://example.com/'']\<rparr>
      else Inl (JSONError ''invalid character''))"

definition test_json_parse :: "string \<Rightarrow> error + json" where
  "test_json_parse b =
     (if b = ''null'' then Inr JNull
      else if b = ''false'' then Inr (JBool False)
      else if b = ''true'' then Inr (JBool True)
      else if 2 \<le> length b \<and> hd b = CHR 0x22 \<and> last b = CHR 0x22
              \<and> CHR 0x22 \<notin> set (butlast (tl b)) \<and> CHR 0x5C \<notin> set (butlast (tl b))
        then Inr (JString (butlast (tl b)))
      else Inl (JSONError ''invalid character''))"

definition test_std :: stdlib where
  "test_std =
     \<lparr>url_Parse = test_url_Parse, URL_String = test_URL_String,
      URL_ResolveReference = test_ResolveReference, Values_Encode = test_Encode,
      http_NewRequest = test_NewRequest,
      DefaultTransport = (\<lambda>req. Inl (TransportError ''no network'')),
      json_Decode = test_Decode, json_parse = test_json_parse,
      os_Getenv = (\<lambda>name. '''')\<rparr>"

definition test_Client :: Client where
  "test_Client =
     NewClient test_std
       [HTTPClient \<lparr>Timeout = 20 * Second, Transport = test_Transport\<rparr>,
        BaseURL test_std ''http://127.0.0.1:8080'']"

definition test_Time_EST :: Time where
  "test_Time_EST = \<lparr>unixSec = 1577939400, nsec = 0, loc = FixedZone ''EST'' (- 18000)\<rparr>"


section \<open>Helper lemmas\<close>

lemma foldl_append_each: "foldl (\<lambda>symbols c. symbols @ [c]) acc cs = acc @ cs"
  by (induction cs arbitrary: acc) simp_all

lemma Currencies_String_sort: "Currencies_String cs = strings_Join (sort cs) '',''"
  by (simp add: Currencies_String_def sort_Strings_def foldl_append_each)

lemma last_nonempty_Nil: "last_nonempty key [] = None"
  by (simp add: last_nonempty_def)

lemma last_nonempty_if:
  "last_nonempty key attributes =
     (if filter (\<lambda>s. s \<noteq> '''') (map (\<lambda>a. Values_Get a key) attributes) = [] then None
      else Some (last (filter (\<lambda>s. s \<noteq> '''') (map (\<lambda>a. Values_Get a key) attributes))))"
  unfolding last_nonempty_def
  by (cases "filter (\<lambda>s. s \<noteq> '''') (map (\<lambda>a. Values_Get a key) attributes)") simp_all

lemma last_nonempty_snoc:
  "last_nonempty key (attributes @ [a]) =
     (if Values_Get a key \<noteq> '''' then Some (Values_Get a key)
      else last_nonempty key attributes)"
  by (simp add: last_nonempty_if)

text \<open>
  What the loop of \<open>query\<close> leaves under a key, from any starting parameter set: by
  induction on the attributes from the right, since the loop adds at the right.
\<close>

lemma query_loop_lookup:
  "Mapping.lookup
     (foldl (\<lambda>v a.
        let base = Values_Get a ''base'';
            v = (if base \<noteq> '''' then Values_Set v ''base'' base else v);
            symbols = Values_Get a ''symbols'';
            v = (if symbols \<noteq> '''' then Values_Set v ''symbols'' symbols else v)
        in v) v0 attributes) key =
   (if key = ''base'' \<or> key = ''symbols'' then
      (case last_nonempty key attributes of
         None \<Rightarrow> Mapping.lookup v0 key
       | Some s \<Rightarrow> Some [s])
    else Mapping.lookup v0 key)"
proof (induction attributes rule: rev_induct)
  case Nil
  show ?case by (simp add: last_nonempty_Nil)
next
  case (snoc a attributes)
  have ne: "''base'' \<noteq> ''symbols''" by simp
  show ?case
  proof (cases "key = ''base''")
    case True
    with snoc ne show ?thesis
      by (simp add: last_nonempty_snoc Values_Set_def Let_def lookup_update')
  next
    case False
    note nb = this
    show ?thesis
    proof (cases "key = ''symbols''")
      case True
      with snoc show ?thesis
        by (simp add: last_nonempty_snoc Values_Set_def Let_def lookup_update')
    next
      case False
      with nb snoc show ?thesis
        by (simp add: Values_Set_def Let_def lookup_update')
    qed
  qed
qed

lemma query_lookup:
  "Mapping.lookup (query c attributes) key =
   (if key = ''base'' \<or> key = ''symbols''
    then map_option (\<lambda>s. [s]) (last_nonempty key attributes)
    else None)"
  unfolding query_def query_loop_lookup by (simp split: option.splits)

lemma last_nonempty_Some:
  assumes "last_nonempty key attributes = Some s"
  shows "s \<noteq> '''' \<and> (\<exists>a\<in>set attributes. Values_Get a key = s)"
proof -
  let ?vs = "filter (\<lambda>s. s \<noteq> '''') (map (\<lambda>a. Values_Get a key) attributes)"
  from assms have ne: "?vs \<noteq> []" and s: "s = last ?vs"
    by (auto simp: last_nonempty_def split: list.splits)
  from ne have "last ?vs \<in> set ?vs" by (rule last_in_set)
  with s have "s \<in> set ?vs" by simp
  then show ?thesis by auto
qed

lemma query_keys: "Mapping.keys (query c attributes) \<subseteq> {''base'', ''symbols''}"
  by (auto simp: keys_dom_lookup query_lookup split: if_splits)

section \<open>Error classification\<close>

text \<open>
  C1. \<open>responseError\<close> maps a response by its status code alone: a nil response gives
  \<open>ErrNilResponse\<close>, status 200 no error, 404 \<open>ErrNotFound\<close>, 422
  \<open>ErrUnprocessableEntity\<close>, and every other status code, 0 among them,
  \<open>ErrUnexpectedStatus\<close>; the body plays no part in it.
\<close>

theorem responseError_by_status:
  "responseError None = Some ErrNilResponse
   \<and> (StatusCode r = 200 \<longrightarrow> responseError (Some r) = None)
   \<and> (StatusCode r = 404 \<longrightarrow> responseError (Some r) = Some ErrNotFound)
   \<and> (StatusCode r = 422 \<longrightarrow> responseError (Some r) = Some ErrUnprocessableEntity)
   \<and> (StatusCode r \<notin> {200, 404, 422} \<longrightarrow> responseError (Some r) = Some ErrUnexpectedStatus)
   \<and> (StatusCode r = 0 \<longrightarrow> responseError (Some r) = Some ErrUnexpectedStatus)
   \<and> responseError (Some (r\<lparr>Body := b\<rparr>)) = responseError (Some r)"
  by (simp add: StatusOK_def StatusNotFound_def StatusUnprocessableEntity_def)

theorem responseError_by_status_witness:
  "responseError (Some \<lparr>StatusCode = 200, Body = ''NOT JSON''\<rparr>) = None
   \<and> responseError (Some \<lparr>StatusCode = 404, Body = ''''\<rparr>) = Some ErrNotFound
   \<and> responseError (Some \<lparr>StatusCode = 422, Body = ''''\<rparr>) = Some ErrUnprocessableEntity
   \<and> responseError (Some \<lparr>StatusCode = 500, Body = ''''\<rparr>) = Some ErrUnexpectedStatus
   \<and> responseError (Some \<lparr>StatusCode = 0, Body = ''''\<rparr>) = Some ErrUnexpectedStatus"
  using responseError_by_status [of "\<lparr>StatusCode = 200, Body = ''NOT JSON''\<rparr>"]
    responseError_by_status [of "\<lparr>StatusCode = 404, Body = ''''\<rparr>"]
    responseError_by_status [of "\<lparr>StatusCode = 422, Body = ''''\<rparr>"]
    responseError_by_status [of "\<lparr>StatusCode = 500, Body = ''''\<rparr>"]
    responseError_by_status [of "\<lparr>StatusCode = 0, Body = ''''\<rparr>"]
  by simp


section \<open>Currencies and the parameter builders\<close>

text \<open>
  C7. \<open>Currencies_String\<close> is the comma-join of the sorted list of the codes: of a
  sorted list with the same codes, each as often as in the input, so that duplicates
  stay; it is the same for every order of the input; the empty sequence gives the
  empty string.
\<close>

theorem Currencies_String_sorted_join:
  "(\<exists>symbols. sorted symbols \<and> mset symbols = mset cs
       \<and> Currencies_String cs = strings_Join symbols '','')
   \<and> (mset cs = mset cs' \<longrightarrow> Currencies_String cs = Currencies_String cs')
   \<and> Currencies_String [] = ''''
   \<and> Currencies_String [c, c] = c @ '','' @ c"
proof (intro conjI impI)
  show "\<exists>symbols. sorted symbols \<and> mset symbols = mset cs
       \<and> Currencies_String cs = strings_Join symbols '',''"
    by (rule exI [of _ "sort cs"]) (simp add: Currencies_String_sort)
next
  assume "mset cs = mset cs'"
  then have "sort cs = sort cs'"
    by (metis properties_for_sort sorted_sort mset_sort)
  then show "Currencies_String cs = Currencies_String cs'"
    by (simp add: Currencies_String_sort)
next
  show "Currencies_String [] = ''''"
    by (simp add: Currencies_String_sort)
next
  show "Currencies_String [c, c] = c @ '','' @ c"
    by (simp add: Currencies_String_sort)
qed

theorem Currencies_String_sorted_join_witness:
  "Currencies_String [SEK, DKK] = ''DKK,SEK''
   \<and> Currencies_String [DKK, SEK] = ''DKK,SEK''
   \<and> Currencies_String [SEK, SEK] = ''SEK,SEK''"
  using Currencies_String_sorted_join [of "[SEK, DKK]" "[DKK, SEK]" SEK]
  by (simp add: Currencies_String_sort SEK_def DKK_def)

text \<open>
  C8. \<open>Base c\<close> is the parameter set with the one entry \<open>base = c\<close> when \<open>c\<close> is not
  empty, and the empty parameter set when it is; \<open>Symbols cs\<close> is the parameter set
  with the one entry \<open>symbols\<close>, the serialization of \<open>cs\<close>, when that is not empty, and
  the empty parameter set otherwise, as for no currencies at all.
\<close>

theorem Base_Symbols_sets:
  "(c \<noteq> '''' \<longrightarrow> Base c = Mapping.update ''base'' [c] Mapping.empty
        \<and> Mapping.keys (Base c) = {''base''} \<and> Values_Get (Base c) ''base'' = c)
   \<and> (c = '''' \<longrightarrow> Base c = Mapping.empty \<and> Mapping.keys (Base c) = {})
   \<and> (Currencies_String cs \<noteq> '''' \<longrightarrow>
        Symbols cs = Mapping.update ''symbols'' [Currencies_String cs] Mapping.empty
        \<and> Mapping.keys (Symbols cs) = {''symbols''}
        \<and> Values_Get (Symbols cs) ''symbols'' = Currencies_String cs)
   \<and> (Currencies_String cs = '''' \<longrightarrow>
        Symbols cs = Mapping.empty \<and> Mapping.keys (Symbols cs) = {})
   \<and> Symbols [] = Mapping.empty"
  by (simp add: Base_def Symbols_def Values_Set_def Values_Get_def Currencies_String_sort)

theorem Base_Symbols_sets_witness:
  "Base SEK = Mapping.update ''base'' [''SEK''] Mapping.empty
   \<and> Base '''' = Mapping.empty
   \<and> Symbols [SEK, DKK] = Mapping.update ''symbols'' [''DKK,SEK''] Mapping.empty
   \<and> Symbols [''''] = Mapping.empty"
  using Base_Symbols_sets [of SEK "[SEK, DKK]"] Base_Symbols_sets [of "''''" "['''']"]
  by (simp add: Currencies_String_sort SEK_def DKK_def)


section \<open>Client options\<close>

text \<open>
  C9. The option \<open>BaseURL\<close>: when the string parses, the base URL of the client becomes
  the parsed URL; when it does not, the client is left as it was, and no error comes
  out of the option; the other fields of the client stay as they were in both cases.
\<close>

theorem BaseURL_frame:
  "(url_Parse std rawurl = Inr u \<longrightarrow> baseURL (BaseURL std rawurl c) = u)
   \<and> (url_Parse std rawurl = Inl err \<longrightarrow> BaseURL std rawurl c = c)
   \<and> httpClient (BaseURL std rawurl c) = httpClient c
   \<and> accessKey (BaseURL std rawurl c) = accessKey c
   \<and> userAgent (BaseURL std rawurl c) = userAgent c"
  by (simp add: BaseURL_def split: sum.splits)

theorem BaseURL_frame_witness:
  "baseURL (BaseURL test_std ''http://127.0.0.1:8080'' (NewClient test_std []))
     = \<lparr>Scheme = ''http'', Opaque = '''', Host = ''127.0.0.1:8080'', Path = '''',
        RawQuery = '''', Fragment = ''''\<rparr>
   \<and> BaseURL test_std '':/'' (NewClient test_std []) = NewClient test_std []"
  using BaseURL_frame [of test_std "''http://127.0.0.1:8080''"
      "\<lparr>Scheme = ''http'', Opaque = '''', Host = ''127.0.0.1:8080'', Path = '''',
        RawQuery = '''', Fragment = ''''\<rparr>" "NewClient test_std []"]
    BaseURL_frame [of test_std "'':/''" _ "NewClient test_std []"
      "URLError ''missing protocol scheme''"]
  by (simp add: test_std_def test_url_Parse_def)

section \<open>The merged query\<close>

text \<open>
  C3. The parameter set that the client encodes into the request, merged from any
  sequence of parameter sets: its keys are among \<open>base\<close>, \<open>symbols\<close> and \<open>access_key\<close>;
  what it has under \<open>base\<close> or \<open>symbols\<close> is one value, which one of the sets given has
  under that key; under \<open>access_key\<close> it has the access key of the client when that is
  not empty, and nothing when it is, whatever the sets given say. \<open>request\<close> encodes
  this parameter set and no other: it returns the same for every encoder that agrees
  on it.
\<close>

theorem merged_query_whitelist:
  "Mapping.keys (request_query c (query c attributes)) \<subseteq> {''base'', ''symbols'', ''access_key''}
   \<and> (\<forall>key\<in>{''base'', ''symbols''}. \<forall>vs.
         Mapping.lookup (request_query c (query c attributes)) key = Some vs \<longrightarrow>
         (\<exists>a\<in>set attributes. Values_Get a key \<noteq> '''' \<and> vs = [Values_Get a key]))
   \<and> (accessKey c \<noteq> '''' \<longrightarrow>
         Mapping.lookup (request_query c (query c attributes)) ''access_key'' = Some [accessKey c])
   \<and> (accessKey c = '''' \<longrightarrow>
         Mapping.lookup (request_query c (query c attributes)) ''access_key'' = None)
   \<and> (\<forall>enc. enc (request_query c (query c attributes))
                = Values_Encode std (request_query c (query c attributes)) \<longrightarrow>
          request (std\<lparr>Values_Encode := enc\<rparr>) c ctx path (query c attributes)
            = request std c ctx path (query c attributes))"
proof (intro conjI ballI allI impI)
  show "Mapping.keys (request_query c (query c attributes))
          \<subseteq> {''base'', ''symbols'', ''access_key''}"
    using query_keys [of c attributes] by (auto simp: request_query_def Values_Set_def)
next
  fix key vs
  assume k: "key \<in> {''base'', ''symbols''}"
    and l: "Mapping.lookup (request_query c (query c attributes)) key = Some vs"
  from k have "key \<noteq> ''access_key''" by auto
  with l have "Mapping.lookup (query c attributes) key = Some vs"
    by (simp add: request_query_def Values_Set_def split: if_splits)
  with k obtain s where "last_nonempty key attributes = Some s" and "vs = [s]"
    by (auto simp: query_lookup)
  with last_nonempty_Some [of key attributes s]
  show "\<exists>a\<in>set attributes. Values_Get a key \<noteq> '''' \<and> vs = [Values_Get a key]"
    by auto
next
  assume "accessKey c \<noteq> ''''"
  then show "Mapping.lookup (request_query c (query c attributes)) ''access_key''
               = Some [accessKey c]"
    by (simp add: request_query_def Values_Set_def)
next
  assume "accessKey c = ''''"
  then show "Mapping.lookup (request_query c (query c attributes)) ''access_key'' = None"
    by (simp add: request_query_def query_lookup)
next
  fix enc
  assume "enc (request_query c (query c attributes))
            = Values_Encode std (request_query c (query c attributes))"
  then show "request (std\<lparr>Values_Encode := enc\<rparr>) c ctx path (query c attributes)
               = request std c ctx path (query c attributes)"
    by (simp add: request_def Let_def cong: sum.case_cong)
qed

text \<open>
  C10. In the merge, a parameter set that has no value or the empty value under \<open>base\<close>
  (or \<open>symbols\<close>) leaves what was merged before it; only a non-empty value overwrites.
  So the merged parameter set has under each of the two keys the last non-empty value
  that the sets given have under it, if they have one, and nothing otherwise.
\<close>

theorem query_last_nonempty:
  "(key = ''base'' \<or> key = ''symbols'') \<longrightarrow>
     Mapping.lookup (query c attributes) key
       = map_option (\<lambda>s. [s]) (last_nonempty key attributes)
     \<and> Values_Get (query c attributes) key
         = (case last_nonempty key attributes of None \<Rightarrow> '''' | Some s \<Rightarrow> s)
     \<and> (Values_Get a key = '''' \<longrightarrow>
          Mapping.lookup (query c (attributes @ [a])) key
            = Mapping.lookup (query c attributes) key)
     \<and> (Values_Get a key \<noteq> '''' \<longrightarrow>
          Mapping.lookup (query c (attributes @ [a])) key = Some [Values_Get a key])"
proof (intro impI conjI)
  assume k: "key = ''base'' \<or> key = ''symbols''"
  then show l: "Mapping.lookup (query c attributes) key
       = map_option (\<lambda>s. [s]) (last_nonempty key attributes)"
    by (simp add: query_lookup)
  show "Values_Get (query c attributes) key
         = (case last_nonempty key attributes of None \<Rightarrow> '''' | Some s \<Rightarrow> s)"
    unfolding Values_Get_def [of "query c attributes"] l by (simp split: option.splits)
  from k show "Mapping.lookup (query c (attributes @ [a])) key
            = Mapping.lookup (query c attributes) key" if "Values_Get a key = ''''"
    using that by (simp add: query_lookup last_nonempty_snoc)
  from k show "Mapping.lookup (query c (attributes @ [a])) key = Some [Values_Get a key]"
    if "Values_Get a key \<noteq> ''''"
    using that by (simp add: query_lookup last_nonempty_snoc)
qed

theorem query_last_nonempty_witness:
  "Mapping.lookup
     (query test_Client [Base SEK, Symbols [USD], Base '''', Base EUR, Symbols []]) ''base''
     = Some [''EUR'']
   \<and> Mapping.lookup
       (query test_Client [Base SEK, Symbols [USD], Base '''', Base EUR, Symbols []]) ''symbols''
     = Some [''USD'']"
  using query_last_nonempty [of "''base''" test_Client
      "[Base SEK, Symbols [USD], Base '''', Base EUR, Symbols []]"]
    query_last_nonempty [of "''symbols''" test_Client
      "[Base SEK, Symbols [USD], Base '''', Base EUR, Symbols []]"]
  by (simp add: last_nonempty_def Base_def Symbols_def Values_Get_def Values_Set_def
      Currencies_String_sort SEK_def USD_def EUR_def lookup_update')

theorem merged_query_whitelist_witness:
  "Mapping.keys (request_query (AccessKey ''secret'' test_Client)
      (query (AccessKey ''secret'' test_Client)
         [Base SEK, Mapping.update ''access_key'' [''mine''] (Mapping.update ''callback'' [''f''] Mapping.empty)]))
     = {''access_key'', ''base''}
   \<and> Mapping.lookup (request_query (AccessKey ''secret'' test_Client)
      (query (AccessKey ''secret'' test_Client)
         [Base SEK, Mapping.update ''access_key'' [''mine''] (Mapping.update ''callback'' [''f''] Mapping.empty)]))
      ''access_key'' = Some [''secret'']"
  using merged_query_whitelist [of "AccessKey ''secret'' test_Client"
      "[Base SEK, Mapping.update ''access_key'' [''mine''] (Mapping.update ''callback'' [''f''] Mapping.empty)]"
      test_std Background "''/latest''"]
  by (simp add: AccessKey_def request_query_def query_def Base_def SEK_def
      Values_Get_def Values_Set_def lookup_update')

section \<open>Requests and responses\<close>

text \<open>
  What \<open>request\<close>, \<open>do\<close> and \<open>get\<close> return, case by case. Each returns a pointer and no
  error, or no pointer and an error; so \<open>get\<close> never uses a nil pointer.
\<close>

lemma request_cases:
  "(\<exists>rel req.
       url_Parse std (Path (baseURL c) @ path @
          (if Mapping.is_empty (request_query c vals) then ''''
           else ''?'' @ Values_Encode std (request_query c vals))) = Inr rel
     \<and> http_NewRequest std ''GET''
          (URL_String std (URL_ResolveReference std (baseURL c) rel)) = Inr req
     \<and> request std c ctx path vals =
          (Some (req\<lparr>Request_Context := ctx,
                     Request_Header :=
                       Header_Add (Header_Add (Request_Header req) ''Accept'' ''application/json'')
                         ''User-Agent'' (userAgent c)\<rparr>), None))
   \<or> (\<exists>err. request std c ctx path vals = (None, Some err))"
  by (simp add: request_def Let_def split: sum.splits)

lemma do_cases:
  "(\<exists>resp r. http_Client_Do (httpClient c) req = Inr resp \<and> StatusCode resp = 200
        \<and> json_Decode std (Body resp) = Inr r \<and> do std c req = (Some r, None))
   \<or> (\<exists>err. do std c req = (None, Some err))"
  by (simp add: do_def StatusOK_def split: sum.splits option.splits)

lemma do_classified:
  assumes "http_Client_Do (httpClient c) req = Inr resp"
    and "responseError (Some resp) = Some err"
  shows "do std c req = (None, Some err)"
  using assms by (simp add: do_def)

lemma request_json_Decode:
  "request (std\<lparr>json_Decode := dec\<rparr>) c ctx path vals = request std c ctx path vals"
  by (simp add: request_def Let_def cong: sum.case_cong)

lemma get_cases:
  "(\<exists>req r. request std c ctx path vals = (Some req, None)
        \<and> do std c req = (Some r, None)
        \<and> get std c ctx path vals =
            Returns (Some (r\<lparr>Response_Links :=
                               [''base'' \<mapsto> URL_String std (baseURL c),
                                ''self'' \<mapsto> URL_String std (Request_URL req)]\<rparr>), None))
   \<or> (\<exists>err. get std c ctx path vals = Returns (None, Some err))"
proof -
  from request_cases [of std c path vals ctx]
  consider (ok) req where "request std c ctx path vals = (Some req, None)"
    | (err) e where "request std c ctx path vals = (None, Some e)"
    by blast
  then show ?thesis
  proof cases
    case ok
    from do_cases [of c req std]
    consider (ok') r where "do std c req = (Some r, None)"
      | (err') e where "do std c req = (None, Some e)"
      by blast
    then show ?thesis
    proof cases
      case ok'
      with ok show ?thesis by (simp add: get_def)
    next
      case err'
      with ok show ?thesis by (simp add: get_def)
    qed
  next
    case err
    then show ?thesis by (simp add: get_def)
  qed
qed

lemma get_success:
  assumes "get std c ctx path vals = Returns (ro, None)"
  shows "\<exists>r r0 req req0 rel resp.
      ro = Some r
    \<and> url_Parse std (Path (baseURL c) @ path @
          (if Mapping.is_empty (request_query c vals) then ''''
           else ''?'' @ Values_Encode std (request_query c vals))) = Inr rel
    \<and> http_NewRequest std ''GET''
          (URL_String std (URL_ResolveReference std (baseURL c) rel)) = Inr req0
    \<and> Request_URL req = Request_URL req0
    \<and> request std c ctx path vals = (Some req, None)
    \<and> http_Client_Do (httpClient c) req = Inr resp
    \<and> StatusCode resp = 200
    \<and> json_Decode std (Body resp) = Inr r0
    \<and> do std c req = (Some r0, None)
    \<and> r = r0\<lparr>Response_Links :=
               [''base'' \<mapsto> URL_String std (baseURL c),
                ''self'' \<mapsto> URL_String std (Request_URL req)]\<rparr>"
proof -
  from get_cases [of std c ctx path vals] assms
  obtain req r0 where rq: "request std c ctx path vals = (Some req, None)"
    and d: "do std c req = (Some r0, None)"
    and g: "get std c ctx path vals =
            Returns (Some (r0\<lparr>Response_Links :=
                               [''base'' \<mapsto> URL_String std (baseURL c),
                                ''self'' \<mapsto> URL_String std (Request_URL req)]\<rparr>), None)"
    by auto
  from request_cases [of std c path vals ctx] rq
  obtain rel req0 where p: "url_Parse std (Path (baseURL c) @ path @
          (if Mapping.is_empty (request_query c vals) then ''''
           else ''?'' @ Values_Encode std (request_query c vals))) = Inr rel"
    and n: "http_NewRequest std ''GET''
          (URL_String std (URL_ResolveReference std (baseURL c) rel)) = Inr req0"
    and u: "Request_URL req = Request_URL req0"
    by auto
  from do_cases [of c req std] d
  obtain resp where "http_Client_Do (httpClient c) req = Inr resp"
    and "StatusCode resp = 200" and "json_Decode std (Body resp) = Inr r0"
    by auto
  with rq d g p n u assms show ?thesis by auto
qed

lemma Links_two_entries:
  "dom [''base'' \<mapsto> (b::string), ''self'' \<mapsto> s] = {''base'', ''self''}
   \<and> card (dom [''base'' \<mapsto> b, ''self'' \<mapsto> s]) = 2"
  by auto

text \<open>
  C4. \<open>Latest\<close> and \<open>At\<close> are \<open>get\<close> on the path \<open>/latest\<close> and on the path of the date.
  When \<open>get\<close> returns without an error, it returns a response whose links are two
  entries: \<open>base\<close>, the string of the base URL of the client, and \<open>self\<close>, the string of
  the URL of the request that was sent, which is the path with the encoded query
  resolved against the base URL. The response is otherwise the decoded body, whose own
  links are replaced.
\<close>

theorem Links_base_and_self:
  "Client_Latest std c ctx attributes = get std c ctx ''/latest'' (query c attributes)
   \<and> Client_At std c ctx t attributes = get std c ctx (''/'' @ date c t) (query c attributes)
   \<and> (get std c ctx path vals = Returns (ro, None) \<longrightarrow>
        (\<exists>r r0 req req0 rel.
           ro = Some r
         \<and> url_Parse std (Path (baseURL c) @ path @
               (if Mapping.is_empty (request_query c vals) then ''''
                else ''?'' @ Values_Encode std (request_query c vals))) = Inr rel
         \<and> http_NewRequest std ''GET''
               (URL_String std (URL_ResolveReference std (baseURL c) rel)) = Inr req0
         \<and> Request_URL req = Request_URL req0
         \<and> request std c ctx path vals = (Some req, None)
         \<and> do std c req = (Some r0, None)
         \<and> r = r0\<lparr>Response_Links := Response_Links r\<rparr>
         \<and> Response_Links r = [''base'' \<mapsto> URL_String std (baseURL c),
                                ''self'' \<mapsto> URL_String std (Request_URL req)]
         \<and> dom (Response_Links r) = {''base'', ''self''}
         \<and> card (dom (Response_Links r)) = 2))"
proof (intro conjI impI)
  show "Client_Latest std c ctx attributes = get std c ctx ''/latest'' (query c attributes)"
    by (simp add: Client_Latest_def)
next
  show "Client_At std c ctx t attributes
          = get std c ctx (''/'' @ date c t) (query c attributes)"
    by (simp add: Client_At_def)
next
  assume g: "get std c ctx path vals = Returns (ro, None)"
  from get_success [OF g]
  obtain r r0 req req0 rel where "ro = Some r"
    and "url_Parse std (Path (baseURL c) @ path @
          (if Mapping.is_empty (request_query c vals) then ''''
           else ''?'' @ Values_Encode std (request_query c vals))) = Inr rel"
    and "http_NewRequest std ''GET''
          (URL_String std (URL_ResolveReference std (baseURL c) rel)) = Inr req0"
    and "Request_URL req = Request_URL req0"
    and "request std c ctx path vals = (Some req, None)"
    and "do std c req = (Some r0, None)"
    and r: "r = r0\<lparr>Response_Links :=
               [''base'' \<mapsto> URL_String std (baseURL c),
                ''self'' \<mapsto> URL_String std (Request_URL req)]\<rparr>"
    by blast
  moreover from r have "r = r0\<lparr>Response_Links := Response_Links r\<rparr>"
    and l: "Response_Links r = [''base'' \<mapsto> URL_String std (baseURL c),
                           ''self'' \<mapsto> URL_String std (Request_URL req)]"
    by simp_all
  moreover from l have "dom (Response_Links r) = {''base'', ''self''}"
    and "card (dom (Response_Links r)) = 2"
    using Links_two_entries [of "URL_String std (baseURL c)" "URL_String std (Request_URL req)"]
    by simp_all
  ultimately show "\<exists>r r0 req req0 rel.
      ro = Some r
    \<and> url_Parse std (Path (baseURL c) @ path @
          (if Mapping.is_empty (request_query c vals) then ''''
           else ''?'' @ Values_Encode std (request_query c vals))) = Inr rel
    \<and> http_NewRequest std ''GET''
          (URL_String std (URL_ResolveReference std (baseURL c) rel)) = Inr req0
    \<and> Request_URL req = Request_URL req0
    \<and> request std c ctx path vals = (Some req, None)
    \<and> do std c req = (Some r0, None)
    \<and> r = r0\<lparr>Response_Links := Response_Links r\<rparr>
    \<and> Response_Links r = [''base'' \<mapsto> URL_String std (baseURL c),
                           ''self'' \<mapsto> URL_String std (Request_URL req)]
    \<and> dom (Response_Links r) = {''base'', ''self''}
    \<and> card (dom (Response_Links r)) = 2"
    by blast
qed

text \<open>
  C5. Every call of \<open>Latest\<close> or \<open>At\<close>, on a client or on the default client of the
  package, returns either a response and no error, or no response and an error. A
  response that is returned is the decoded body of a response with status 200, with
  its links set. When the status of the response received classifies as an error, that
  error is returned, whatever the decoder would make of the body.
\<close>

theorem response_xor_error:
  "((\<exists>r. Client_Latest std c ctx attributes = Returns (Some r, None))
      \<or> (\<exists>err. Client_Latest std c ctx attributes = Returns (None, Some err)))
   \<and> ((\<exists>r. Client_At std c ctx t attributes = Returns (Some r, None))
      \<or> (\<exists>err. Client_At std c ctx t attributes = Returns (None, Some err)))
   \<and> ((\<exists>r. Latest std ctx attributes = Returns (Some r, None))
      \<or> (\<exists>err. Latest std ctx attributes = Returns (None, Some err)))
   \<and> ((\<exists>r. At std ctx t attributes = Returns (Some r, None))
      \<or> (\<exists>err. At std ctx t attributes = Returns (None, Some err)))
   \<and> Client_Latest std c ctx attributes = get std c ctx ''/latest'' (query c attributes)
   \<and> Client_At std c ctx t attributes = get std c ctx (''/'' @ date c t) (query c attributes)
   \<and> (\<forall>path vals ro. get std c ctx path vals = Returns (ro, None) \<longrightarrow>
        (\<exists>r r0 req resp. ro = Some r
           \<and> request std c ctx path vals = (Some req, None)
           \<and> http_Client_Do (httpClient c) req = Inr resp \<and> StatusCode resp = 200
           \<and> json_Decode std (Body resp) = Inr r0
           \<and> r = r0\<lparr>Response_Links := Response_Links r\<rparr>))
   \<and> (\<forall>path vals req resp err dec.
         request std c ctx path vals = (Some req, None)
         \<and> http_Client_Do (httpClient c) req = Inr resp
         \<and> responseError (Some resp) = Some err \<longrightarrow>
         get std c ctx path vals = Returns (None, Some err)
         \<and> get (std\<lparr>json_Decode := dec\<rparr>) c ctx path vals = Returns (None, Some err))"
proof (intro conjI allI impI)
  show "(\<exists>r. Client_Latest std c ctx attributes = Returns (Some r, None))
      \<or> (\<exists>err. Client_Latest std c ctx attributes = Returns (None, Some err))"
    unfolding Client_Latest_def
    using get_cases [of std c ctx "''/latest''" "query c attributes"] by blast
next
  show "(\<exists>r. Client_At std c ctx t attributes = Returns (Some r, None))
      \<or> (\<exists>err. Client_At std c ctx t attributes = Returns (None, Some err))"
    unfolding Client_At_def
    using get_cases [of std c ctx "''/'' @ date c t" "query c attributes"] by blast
next
  show "(\<exists>r. Latest std ctx attributes = Returns (Some r, None))
      \<or> (\<exists>err. Latest std ctx attributes = Returns (None, Some err))"
    unfolding Latest_def Client_Latest_def
    using get_cases [of std "DefaultClient std" ctx "''/latest''"
        "query (DefaultClient std) attributes"]
    by blast
next
  show "(\<exists>r. At std ctx t attributes = Returns (Some r, None))
      \<or> (\<exists>err. At std ctx t attributes = Returns (None, Some err))"
    unfolding At_def Client_At_def
    using get_cases [of std "DefaultClient std" ctx "''/'' @ date (DefaultClient std) t"
        "query (DefaultClient std) attributes"]
    by blast
next
  show "Client_Latest std c ctx attributes = get std c ctx ''/latest'' (query c attributes)"
    by (simp add: Client_Latest_def)
next
  show "Client_At std c ctx t attributes
          = get std c ctx (''/'' @ date c t) (query c attributes)"
    by (simp add: Client_At_def)
next
  fix path vals ro
  assume "get std c ctx path vals = Returns (ro, None)"
  from get_success [OF this]
  obtain r r0 req resp where "ro = Some r"
    and "request std c ctx path vals = (Some req, None)"
    and "http_Client_Do (httpClient c) req = Inr resp" and "StatusCode resp = 200"
    and "json_Decode std (Body resp) = Inr r0"
    and "r = r0\<lparr>Response_Links :=
               [''base'' \<mapsto> URL_String std (baseURL c),
                ''self'' \<mapsto> URL_String std (Request_URL req)]\<rparr>"
    by blast
  moreover from this have "r = r0\<lparr>Response_Links := Response_Links r\<rparr>"
    by simp
  ultimately show "\<exists>r r0 req resp. ro = Some r
           \<and> request std c ctx path vals = (Some req, None)
           \<and> http_Client_Do (httpClient c) req = Inr resp \<and> StatusCode resp = 200
           \<and> json_Decode std (Body resp) = Inr r0
           \<and> r = r0\<lparr>Response_Links := Response_Links r\<rparr>"
    by blast
next
  fix path vals req resp err dec
  assume h: "request std c ctx path vals = (Some req, None)
         \<and> http_Client_Do (httpClient c) req = Inr resp
         \<and> responseError (Some resp) = Some err"
  then have d: "do std c req = (None, Some err)"
    and d': "do (std\<lparr>json_Decode := dec\<rparr>) c req = (None, Some err)"
    by (simp_all add: do_classified)
  from h d show "get std c ctx path vals = Returns (None, Some err)"
    by (simp add: get_def)
  from h d' show "get (std\<lparr>json_Decode := dec\<rparr>) c ctx path vals = Returns (None, Some err)"
    by (simp add: get_def request_json_Decode)
qed

text \<open>The test client at work.\<close>

lemmas test_defs =
  test_Client_def test_std_def NewClient_def HTTPClient_def BaseURL_def test_url_Parse_def
  test_URL_String_def test_ResolveReference_def test_QueryEscape_def test_Encode_def
  test_NewRequest_def test_Transport_def test_Decode_def test_body_EUR_def test_body_SEK_def
  get_def request_def request_query_def do_def query_def
  http_Client_Do_def Base_def Symbols_def Values_Get_def Values_Set_def Header_Add_def
  StatusOK_def StatusNotFound_def StatusUnprocessableEntity_def
  SEK_def USD_def GBP_def EUR_def Second_def

lemma test_Latest_SEK:
  "Client_Latest test_std test_Client Background [Base SEK, Symbols [USD, GBP]] =
     Returns
       (Some \<lparr>Response_Base = ''SEK'',
               Response_Date = \<lparr>Time = time_Date 2016 2 12 0 0 0 0 UTC\<rparr>,
               Response_Rates = Map.empty,
               Response_Links =
                 [''base'' \<mapsto> ''http://127.0.0.1:8080'',
                  ''self'' \<mapsto> ''http://127.0.0.1:8080/latest?base=SEK&symbols=GBP%2CUSD'']\<rparr>,
        None)"
  by (simp add: Client_Latest_def test_defs Currencies_String_sort Let_def lookup_update')

lemma test_Latest:
  "Client_Latest test_std test_Client Background [] =
     Returns
       (Some \<lparr>Response_Base = ''EUR'',
               Response_Date = \<lparr>Time = time_Date 2012 3 28 0 0 0 0 UTC\<rparr>,
               Response_Rates = Map.empty,
               Response_Links =
                 [''base'' \<mapsto> ''http://127.0.0.1:8080'',
                  ''self'' \<mapsto> ''http://127.0.0.1:8080/latest'']\<rparr>,
        None)"
  by (simp add: Client_Latest_def test_defs Let_def)

lemma test_date_1999: "date test_Client (time_Date 1999 12 31 0 0 0 0 UTC) = ''1999-12-31''"
  by code_simp

lemma test_date_2000: "date test_Client (time_Date 2000 1 1 0 0 0 0 UTC) = ''2000-01-01''"
  by code_simp

lemma test_request_1999:
  "request test_std test_Client Background ''/1999-12-31'' (query test_Client []) =
     (Some \<lparr>Method = ''GET'',
             Request_URL = \<lparr>Scheme = ''http'', Opaque = '''', Host = ''127.0.0.1:8080'',
                             Path = ''/1999-12-31'', RawQuery = '''', Fragment = ''''\<rparr>,
             Request_Header =
               [''Accept'' \<mapsto> [''application/json''],
                ''User-Agent'' \<mapsto>
                  [''fixer/client.go (https://github.com/peterhellberg/fixer)'']],
             Request_Context = Background\<rparr>, None)"
  by (simp add: test_defs Let_def)

lemma test_Do_1999:
  "http_Client_Do (httpClient test_Client)
     \<lparr>Method = ''GET'',
      Request_URL = \<lparr>Scheme = ''http'', Opaque = '''', Host = ''127.0.0.1:8080'',
                      Path = ''/1999-12-31'', RawQuery = '''', Fragment = ''''\<rparr>,
      Request_Header =
        [''Accept'' \<mapsto> [''application/json''],
         ''User-Agent'' \<mapsto> [''fixer/client.go (https://github.com/peterhellberg/fixer)'']],
      Request_Context = Background\<rparr>
     = Inr \<lparr>StatusCode = 422, Body = ''''\<rparr>"
  by (simp add: test_defs Let_def)

lemma test_At_2000:
  "Client_At test_std test_Client Background (time_Date 2000 1 1 0 0 0 0 UTC) [] =
     Returns (None, Some (JSONError ''invalid character''))"
  by (simp add: Client_At_def test_date_2000) (simp add: test_defs Let_def)

theorem Links_base_and_self_witness:
  "\<exists>r. Client_Latest test_std test_Client Background [Base SEK, Symbols [USD, GBP]]
          = Returns (Some r, None)
      \<and> Response_Links r =
           [''base'' \<mapsto> ''http://127.0.0.1:8080'',
            ''self'' \<mapsto> ''http://127.0.0.1:8080/latest?base=SEK&symbols=GBP%2CUSD'']
      \<and> dom (Response_Links r) = {''base'', ''self''}"
proof -
  let ?r = "\<lparr>Response_Base = ''SEK'',
             Response_Date = \<lparr>Time = time_Date 2016 2 12 0 0 0 0 UTC\<rparr>,
             Response_Rates = Map.empty,
             Response_Links =
               [''base'' \<mapsto> ''http://127.0.0.1:8080'',
                ''self'' \<mapsto> ''http://127.0.0.1:8080/latest?base=SEK&symbols=GBP%2CUSD'']\<rparr>"
  have "get test_std test_Client Background ''/latest''
          (query test_Client [Base SEK, Symbols [USD, GBP]]) = Returns (Some ?r, None)"
    using test_Latest_SEK by (simp only: Client_Latest_def)
  from Links_base_and_self [where std = test_std and c = test_Client and ctx = Background
      and attributes = "[Base SEK, Symbols [USD, GBP]]" and t = test_Time_EST
      and path = "''/latest''" and vals = "query test_Client [Base SEK, Symbols [USD, GBP]]"
      and ro = "Some ?r", THEN conjunct2, THEN conjunct2, THEN mp, OF this]
  obtain r where "Some ?r = Some r" and "dom (Response_Links r) = {''base'', ''self''}"
    by blast
  then have "dom (Response_Links ?r) = {''base'', ''self''}"
    by simp
  with test_Latest_SEK show ?thesis
    by (intro exI [of _ ?r]) simp
qed

theorem response_xor_error_witness:
  "(\<exists>r req resp.
      Client_Latest test_std test_Client Background [] = Returns (Some r, None)
      \<and> request test_std test_Client Background ''/latest'' (query test_Client [])
          = (Some req, None)
      \<and> http_Client_Do (httpClient test_Client) req = Inr resp
      \<and> StatusCode resp = 200)
   \<and> Client_At test_std test_Client Background (time_Date 1999 12 31 0 0 0 0 UTC) []
       = Returns (None, Some ErrUnprocessableEntity)
   \<and> Client_At test_std test_Client Background (time_Date 2000 1 1 0 0 0 0 UTC) []
       = Returns (None, Some (JSONError ''invalid character''))"
proof (intro conjI)
  let ?r = "\<lparr>Response_Base = ''EUR'',
             Response_Date = \<lparr>Time = time_Date 2012 3 28 0 0 0 0 UTC\<rparr>,
             Response_Rates = Map.empty,
             Response_Links =
               [''base'' \<mapsto> ''http://127.0.0.1:8080'',
                ''self'' \<mapsto> ''http://127.0.0.1:8080/latest'']\<rparr>"
  have "get test_std test_Client Background ''/latest'' (query test_Client [])
      = Returns (Some ?r, None)"
    using test_Latest by (simp only: Client_Latest_def)
  from response_xor_error [where std = test_std and c = test_Client and ctx = Background
      and attributes = "[]" and t = test_Time_EST,
      THEN conjunct2, THEN conjunct2, THEN conjunct2, THEN conjunct2, THEN conjunct2,
      THEN conjunct2, THEN conjunct1, THEN spec, THEN spec, THEN spec, THEN mp, OF this]
  obtain req resp where
    "request test_std test_Client Background ''/latest'' (query test_Client [])
       = (Some req, None)"
    "http_Client_Do (httpClient test_Client) req = Inr resp" "StatusCode resp = 200"
    by blast
  with test_Latest
  show "\<exists>r req resp.
      Client_Latest test_std test_Client Background [] = Returns (Some r, None)
      \<and> request test_std test_Client Background ''/latest'' (query test_Client [])
          = (Some req, None)
      \<and> http_Client_Do (httpClient test_Client) req = Inr resp
      \<and> StatusCode resp = 200"
    by blast
next
  have "responseError (Some \<lparr>StatusCode = 422, Body = ''''\<rparr>) = Some ErrUnprocessableEntity"
    by (simp add: StatusOK_def StatusNotFound_def StatusUnprocessableEntity_def)
  with test_request_1999 test_Do_1999
  have "request test_std test_Client Background ''/1999-12-31'' (query test_Client [])
          = (Some \<lparr>Method = ''GET'',
                   Request_URL = \<lparr>Scheme = ''http'', Opaque = '''',
                                   Host = ''127.0.0.1:8080'', Path = ''/1999-12-31'',
                                   RawQuery = '''', Fragment = ''''\<rparr>,
                   Request_Header =
                     [''Accept'' \<mapsto> [''application/json''],
                      ''User-Agent'' \<mapsto>
                        [''fixer/client.go (https://github.com/peterhellberg/fixer)'']],
                   Request_Context = Background\<rparr>, None)
      \<and> http_Client_Do (httpClient test_Client)
            \<lparr>Method = ''GET'',
             Request_URL = \<lparr>Scheme = ''http'', Opaque = '''',
                             Host = ''127.0.0.1:8080'', Path = ''/1999-12-31'',
                             RawQuery = '''', Fragment = ''''\<rparr>,
             Request_Header =
               [''Accept'' \<mapsto> [''application/json''],
                ''User-Agent'' \<mapsto>
                  [''fixer/client.go (https://github.com/peterhellberg/fixer)'']],
             Request_Context = Background\<rparr>
          = Inr \<lparr>StatusCode = 422, Body = ''''\<rparr>
      \<and> responseError (Some \<lparr>StatusCode = 422, Body = ''''\<rparr>)
          = Some ErrUnprocessableEntity"
    by (intro conjI)
  from response_xor_error [where std = test_std and c = test_Client and ctx = Background
      and attributes = "[]" and t = test_Time_EST,
      THEN conjunct2, THEN conjunct2, THEN conjunct2, THEN conjunct2, THEN conjunct2,
      THEN conjunct2, THEN conjunct2, THEN spec, THEN spec, THEN spec, THEN spec, THEN spec,
      THEN spec, THEN mp, OF this, THEN conjunct1]
  have "get test_std test_Client Background ''/1999-12-31'' (query test_Client [])
      = Returns (None, Some ErrUnprocessableEntity)" .
  then show "Client_At test_std test_Client Background (time_Date 1999 12 31 0 0 0 0 UTC) []
       = Returns (None, Some ErrUnprocessableEntity)"
    by (simp add: Client_At_def test_date_1999)
next
  show "Client_At test_std test_Client Background (time_Date 2000 1 1 0 0 0 0 UTC) []
       = Returns (None, Some (JSONError ''invalid character''))"
    by (rule test_At_2000)
qed

section \<open>Parsing dates\<close>

lemma is_digit_of_char: "is_digit c \<longleftrightarrow> (48::nat) \<le> of_char c \<and> of_char c \<le> (57::nat)"
  by (simp add: is_digit_def less_eq_char_def)

lemma digit_value_of_char: "digit_value c = int (of_char c) - 48"
  by (simp add: digit_value_def)

lemma daysIn_days_in_month:
  "1 \<le> m \<Longrightarrow> m \<le> 12 \<Longrightarrow> daysIn m y = days_in_month y m"
proof -
  assume "1 \<le> m" "m \<le> 12"
  then have "m = 1 \<or> m = 2 \<or> m = 3 \<or> m = 4 \<or> m = 5 \<or> m = 6 \<or> m = 7 \<or> m = 8 \<or> m = 9
      \<or> m = 10 \<or> m = 11 \<or> m = 12"
    by arith
  moreover have "isLeap y = leap_year y"
    by (simp add: isLeap_def leap_year_def dvd_eq_mod_eq_0)
  ultimately show ?thesis
    by (auto simp: daysIn_def days_in_month_def daysBefore_def)
qed

lemma skip_one: "skip v [p] = Some w \<longleftrightarrow> v = p # w"
  by (cases v) auto

lemma getnum_fixed:
  "getnum v True = Some (n, w) \<longleftrightarrow>
     (\<exists>a b. v = a # b # w \<and> is_digit a \<and> is_digit b
        \<and> n = 10 * digit_value a + digit_value b)"
proof (cases v)
  case Nil
  then show ?thesis by (simp add: getnum_def isDigit_def)
next
  case (Cons a v')
  note v = this
  show ?thesis
  proof (cases v')
    case Nil
    with v show ?thesis by (simp add: getnum_def isDigit_def)
  next
    case (Cons b v'')
    with v show ?thesis
      by (auto simp: getnum_def isDigit_def is_digit_of_char digit_value_of_char)
  qed
qed

lemma digit_value_range: "is_digit c \<Longrightarrow> 0 \<le> digit_value c \<and> digit_value c \<le> 9"
  by (auto simp: is_digit_of_char digit_value_of_char)

lemma leadingInt_digit:
  assumes "is_digit c" and "0 \<le> x" and "x < 1000"
  shows "leadingInt x (c # s) = leadingInt (x * 10 + digit_value c) s"
proof -
  from assms(1) have c: "\<not> ((of_char c :: nat) < 48 \<or> (of_char c :: nat) > 57)"
    by (auto simp: is_digit_of_char)
  have v: "x * 10 + int (of_char c) - 48 = x * 10 + digit_value c"
    by (simp add: digit_value_of_char)
  from digit_value_range [OF assms(1)] have r: "0 \<le> digit_value c" "digit_value c \<le> 9"
    by simp_all
  from assms have o1: "\<not> x > 2 ^ 63 div 10" by simp
  from assms r have o2: "\<not> x * 10 + digit_value c > 2 ^ 63" by simp
  show ?thesis
    by (simp only: leadingInt.simps c v o1 o2 if_False Let_def)
qed

lemma leadingInt_nondigit:
  assumes "\<not> is_digit c"
  shows "leadingInt x (c # s) = Some (x, c # s)"
  using assms by (auto simp: is_digit_of_char)

declare leadingInt.simps [simp del]

lemma atoi_four:
  assumes "is_digit a"
  shows "atoi [a, b, c, d] = Some y \<longleftrightarrow>
     is_digit b \<and> is_digit c \<and> is_digit d
     \<and> y = 1000 * digit_value a + 100 * digit_value b + 10 * digit_value c + digit_value d"
proof -
  from assms have sign: "a \<noteq> CHR ''-''" "a \<noteq> CHR ''+''"
    by (auto simp: is_digit_of_char)
  have ra: "0 \<le> digit_value a" "digit_value a \<le> 9"
    using digit_value_range [OF assms] by simp_all
  have la: "leadingInt 0 [a, b, c, d] = leadingInt (digit_value a) [b, c, d]"
    using leadingInt_digit [OF assms, of 0] by simp
  show ?thesis
  proof (cases "is_digit b")
    case False
    with la sign show ?thesis by (simp add: atoi_def leadingInt_nondigit)
  next
    case b: True
    have rb: "0 \<le> digit_value b" "digit_value b \<le> 9"
      using digit_value_range [OF b] by simp_all
    have lb: "leadingInt (digit_value a) [b, c, d]
        = leadingInt (digit_value a * 10 + digit_value b) [c, d]"
      using leadingInt_digit [OF b, of "digit_value a"] ra by simp
    show ?thesis
    proof (cases "is_digit c")
      case False
      with la lb b sign show ?thesis by (simp add: atoi_def leadingInt_nondigit)
    next
      case c: True
      have rc: "0 \<le> digit_value c" "digit_value c \<le> 9"
        using digit_value_range [OF c] by simp_all
      have lc: "leadingInt (digit_value a * 10 + digit_value b) [c, d]
          = leadingInt ((digit_value a * 10 + digit_value b) * 10 + digit_value c) [d]"
        using leadingInt_digit [OF c, of "digit_value a * 10 + digit_value b"] ra rb by simp
      show ?thesis
      proof (cases "is_digit d")
        case False
        with la lb lc b c sign show ?thesis by (simp add: atoi_def leadingInt_nondigit)
      next
        case d: True
        have ld: "leadingInt ((digit_value a * 10 + digit_value b) * 10 + digit_value c) [d]
            = Some (((digit_value a * 10 + digit_value b) * 10 + digit_value c) * 10
                      + digit_value d, [])"
          using leadingInt_digit [OF d,
              of "(digit_value a * 10 + digit_value b) * 10 + digit_value c"] ra rb rc
          by (simp add: leadingInt.simps(1))
        from la lb lc ld b c d sign show ?thesis
          by (auto simp: atoi_def)
      qed
    qed
  qed
qed

text \<open>
  What the parser accepts, written out: the ten characters, and the date made of them.
\<close>

lemma Parse_Inr_iff:
  "time_ParseInLocation_2006_01_02 s l = Inr t \<longleftrightarrow>
     (\<exists>y1 y2 y3 y4 m1 m2 d1 d2.
        s = [y1, y2, y3, y4, CHR ''-'', m1, m2, CHR ''-'', d1, d2]
      \<and> is_digit y1 \<and> is_digit y2 \<and> is_digit y3 \<and> is_digit y4
      \<and> is_digit m1 \<and> is_digit m2 \<and> is_digit d1 \<and> is_digit d2
      \<and> 1 \<le> 10 * digit_value m1 + digit_value m2
      \<and> 10 * digit_value m1 + digit_value m2 \<le> 12
      \<and> 1 \<le> 10 * digit_value d1 + digit_value d2
      \<and> 10 * digit_value d1 + digit_value d2
           \<le> days_in_month
                (1000 * digit_value y1 + 100 * digit_value y2 + 10 * digit_value y3
                   + digit_value y4)
                (10 * digit_value m1 + digit_value m2)
      \<and> t = time_Date
              (1000 * digit_value y1 + 100 * digit_value y2 + 10 * digit_value y3
                 + digit_value y4)
              (10 * digit_value m1 + digit_value m2)
              (10 * digit_value d1 + digit_value d2) 0 0 0 0 l)"
  (is "?L \<longleftrightarrow> ?R")
proof
  assume ?L
  then have len: "4 \<le> length s" and d0: "isDigit s 0"
    by (auto simp: time_ParseInLocation_2006_01_02_def split: if_splits)
  then obtain y1 y2 y3 y4 v where s: "s = y1 # y2 # y3 # y4 # v"
    by (cases s; cases "tl s"; cases "tl (tl s)"; cases "tl (tl (tl s))") auto
  from d0 s have y1: "is_digit y1"
    by (simp add: isDigit_def is_digit_of_char)
  from \<open>?L\<close> s len d0 obtain year v1 month v2 v3 day where
    a: "atoi [y1, y2, y3, y4] = Some year"
    and k1: "skip v ''-'' = Some v1"
    and g1: "getnum v1 True = Some (month, v2)"
    and rm: "\<not> (month \<le> 0 \<or> 12 < month)"
    and k2: "skip v2 ''-'' = Some v3"
    and g2: "getnum v3 True = Some (day, [])"
    and rd: "\<not> (day < 1 \<or> day > daysIn month year)"
    and t: "t = time_Date year month day 0 0 0 0 l"
    by (auto simp: time_ParseInLocation_2006_01_02_def
        split: if_splits option.splits prod.splits)
  from a y1 have ys: "is_digit y2" "is_digit y3" "is_digit y4"
    and year: "year = 1000 * digit_value y1 + 100 * digit_value y2 + 10 * digit_value y3
                 + digit_value y4"
    by (simp_all add: atoi_four)
  from k1 have v: "v = CHR ''-'' # v1" by (simp add: skip_one)
  from g1 obtain m1 m2 where v1: "v1 = m1 # m2 # v2" and ms: "is_digit m1" "is_digit m2"
    and month: "month = 10 * digit_value m1 + digit_value m2"
    by (auto simp: getnum_fixed)
  from k2 have v2: "v2 = CHR ''-'' # v3" by (simp add: skip_one)
  from g2 obtain d1 d2 where v3: "v3 = [d1, d2]" and ds: "is_digit d1" "is_digit d2"
    and day: "day = 10 * digit_value d1 + digit_value d2"
    by (auto simp: getnum_fixed)
  from rm have m: "1 \<le> month" "month \<le> 12" by auto
  with rd have "1 \<le> day" "day \<le> days_in_month year month"
    by (simp_all add: daysIn_days_in_month)
  with s v v1 v2 v3 y1 ys ms ds m t year month day show ?R
    by simp
next
  assume ?R
  then obtain y1 y2 y3 y4 m1 m2 d1 d2 where
    s: "s = [y1, y2, y3, y4, CHR ''-'', m1, m2, CHR ''-'', d1, d2]"
    and ys: "is_digit y1" "is_digit y2" "is_digit y3" "is_digit y4"
    and ms: "is_digit m1" "is_digit m2" and ds: "is_digit d1" "is_digit d2"
    and m: "1 \<le> 10 * digit_value m1 + digit_value m2"
      "10 * digit_value m1 + digit_value m2 \<le> 12"
    and d: "1 \<le> 10 * digit_value d1 + digit_value d2"
      "10 * digit_value d1 + digit_value d2
           \<le> days_in_month
                (1000 * digit_value y1 + 100 * digit_value y2 + 10 * digit_value y3
                   + digit_value y4)
                (10 * digit_value m1 + digit_value m2)"
    and t: "t = time_Date
              (1000 * digit_value y1 + 100 * digit_value y2 + 10 * digit_value y3
                 + digit_value y4)
              (10 * digit_value m1 + digit_value m2)
              (10 * digit_value d1 + digit_value d2) 0 0 0 0 l"
    by blast
  have a: "atoi [y1, y2, y3, y4]
      = Some (1000 * digit_value y1 + 100 * digit_value y2 + 10 * digit_value y3
                 + digit_value y4)"
    using ys by (simp add: atoi_four)
  have d0: "isDigit s 0"
    using s ys by (simp add: isDigit_def is_digit_of_char)
  have g1: "getnum [m1, m2, CHR ''-'', d1, d2] True
      = Some (10 * digit_value m1 + digit_value m2, [CHR ''-'', d1, d2])"
    using ms by (simp add: getnum_fixed)
  have g2: "getnum [d1, d2] True = Some (10 * digit_value d1 + digit_value d2, [])"
    using ds by (simp add: getnum_fixed)
  from m d show ?L
    unfolding time_ParseInLocation_2006_01_02_def
    using s a d0 g1 g2 t by (simp add: daysIn_days_in_month)
qed

lemma YYYY_MM_DD_Some_iff:
  "YYYY_MM_DD s = Some (y, m, d) \<longleftrightarrow>
     (\<exists>y1 y2 y3 y4 m1 m2 d1 d2.
        s = [y1, y2, y3, y4, CHR ''-'', m1, m2, CHR ''-'', d1, d2]
      \<and> is_digit y1 \<and> is_digit y2 \<and> is_digit y3 \<and> is_digit y4
      \<and> is_digit m1 \<and> is_digit m2 \<and> is_digit d1 \<and> is_digit d2
      \<and> 1 \<le> m \<and> m \<le> 12 \<and> 1 \<le> d \<and> d \<le> days_in_month y m
      \<and> y = 1000 * digit_value y1 + 100 * digit_value y2 + 10 * digit_value y3
              + digit_value y4
      \<and> m = 10 * digit_value m1 + digit_value m2
      \<and> d = 10 * digit_value d1 + digit_value d2)"
  (is "?L \<longleftrightarrow> ?R")
proof
  assume ?L
  then have len: "length s = 10"
    by (simp add: YYYY_MM_DD_def split: if_splits)
  then obtain c0 c1 c2 c3 c4 c5 c6 c7 c8 c9 where
    s: "s = [c0, c1, c2, c3, c4, c5, c6, c7, c8, c9]"
    by (auto simp: length_Suc_conv eval_nat_numeral)
  from \<open>?L\<close> show ?R
    unfolding s by (simp add: YYYY_MM_DD_def Let_def split: if_splits)
next
  assume ?R
  then show ?L
    by (auto simp: YYYY_MM_DD_def Let_def)
qed

lemma Parse_YYYY_MM_DD:
  "time_ParseInLocation_2006_01_02 s l = Inr t \<longleftrightarrow>
     (\<exists>y m d. YYYY_MM_DD s = Some (y, m, d) \<and> t = time_Date y m d 0 0 0 0 l)"
  unfolding Parse_Inr_iff YYYY_MM_DD_Some_iff by blast

section \<open>Calendar arithmetic\<close>

text \<open>
  \<open>absDate\<close> undoes the day count of \<open>time_Date\<close>. First the years: a year is written
  as 400-year, 100-year and 4-year cycles and single years; then the days of the year.
\<close>

lemma div_eq_by_bounds:
  fixes a b q :: int
  assumes "b * q \<le> a" and "a < b * q + b"
  shows "a div b = q"
proof -
  from assms have "0 < b" by (cases "0 < b") (auto simp: not_less mult_le_0_iff)
  have "a = b * q + (a - b * q)" by simp
  moreover from assms have "0 \<le> a - b * q" "a - b * q < b" by simp_all
  ultimately show ?thesis
    by (metis \<open>0 < b\<close> div_mult_self2 div_pos_pos_trivial add.commute add.right_neutral
        less_irrefl)
qed

lemma year_cycles:
  fixes a b c e yd days :: int
  assumes b: "0 \<le> b" "b \<le> 3" and c: "0 \<le> c" "c \<le> 24" and e: "0 \<le> e" "e \<le> 3"
    and yd: "0 \<le> yd" "yd < 365 \<or> (yd = 365 \<and> e = 3 \<and> (c \<noteq> 24 \<or> b = 3))"
    and D: "days + unixEpochDays = 146097 * a + 36524 * b + 1461 * c + 365 * e + yd"
  shows "(let D = days + unixEpochDays;
              n400 = D div daysPer400Years;
              d = D - daysPer400Years * n400;
              n100 = d div daysPer100Years;
              n100 = n100 - n100 div 4;
              d = d - daysPer100Years * n100;
              n4 = d div daysPer4Years;
              d = d - daysPer4Years * n4;
              n = d div 365;
              n = n - n div 4;
              d = d - 365 * n
          in (400 * n400 + 100 * n100 + 4 * n4 + n + 1, d))
         = (400 * a + 100 * b + 4 * c + e + 1, yd)"
proof -
  define D where "D = 146097 * a + 36524 * b + 1461 * c + 365 * e + yd"
  have n400: "D div 146097 = a"
    unfolding D_def using b c e yd by (intro div_eq_by_bounds) auto
  define d1 where "d1 = 36524 * b + 1461 * c + 365 * e + yd"
  have d1: "D - 146097 * a = d1" by (simp add: D_def d1_def)
  define n100 where "n100 = d1 div 36524"
  have n100: "n100 - n100 div 4 = b"
  proof (cases "yd = 365 \<and> c = 24")
    case True
    with yd e have "e = 3" "b = 3" by auto
    with True have "d1 = 36524 * 4" by (simp add: d1_def)
    then have "n100 = 4" by (simp add: n100_def)
    with \<open>b = 3\<close> show ?thesis by simp
  next
    case False
    have "d1 div 36524 = b"
      unfolding d1_def using False b c e yd by (intro div_eq_by_bounds) auto
    with b show ?thesis by (simp add: n100_def)
  qed
  define d2 where "d2 = 1461 * c + 365 * e + yd"
  have d2: "d1 - 36524 * b = d2" by (simp add: d1_def d2_def)
  have n4: "d2 div 1461 = c"
    unfolding d2_def using c e yd by (intro div_eq_by_bounds) auto
  define d3 where "d3 = 365 * e + yd"
  have d3: "d2 - 1461 * c = d3" by (simp add: d2_def d3_def)
  define n where "n = d3 div 365"
  have n: "n - n div 4 = e"
  proof (cases "yd = 365")
    case True
    with yd have "e = 3" by auto
    with True have "d3 = 365 * 4" by (simp add: d3_def)
    then have "n = 4" by (simp add: n_def)
    with \<open>e = 3\<close> show ?thesis by simp
  next
    case False
    have "d3 div 365 = e"
      unfolding d3_def using False e yd by (intro div_eq_by_bounds) auto
    with e show ?thesis by (simp add: n_def)
  qed
  have d4: "d3 - 365 * e = yd" by (simp add: d3_def)
  show ?thesis
    unfolding Let_def daysPer400Years_def daysPer100Years_def daysPer4Years_def
      D D_def [symmetric] n400 d1 n100_def [symmetric] n100 d2 n4 d3 n_def [symmetric] n d4
    by (rule refl)
qed

lemma month_of_day:
  fixes y m d :: int
  assumes m: "1 \<le> m" "m \<le> 12" and d: "1 \<le> d" "d \<le> daysBefore m - daysBefore (m - 1)"
  shows "(let day = daysBefore (m - 1) + (d - 1);
              month = day div 31;
              end = daysBefore (month + 1)
          in if day \<ge> end then (y, month + 2, day - end + 1)
             else (y, month + 1, day - daysBefore month + 1)) = (y, m, d)"
proof -
  define day where "day = daysBefore (m - 1) + (d - 1)"
  define k where "k = day div 31"
  have "day = 31 * k + day mod 31" by (simp add: k_def)
  moreover have "0 \<le> day mod 31" "day mod 31 < 31" by simp_all
  ultimately have k: "31 * k \<le> day" "day < 31 * k + 31" by linarith+
  from m have mc: "m = 1 \<or> m = 2 \<or> m = 3 \<or> m = 4 \<or> m = 5 \<or> m = 6 \<or> m = 7 \<or> m = 8
      \<or> m = 9 \<or> m = 10 \<or> m = 11 \<or> m = 12"
    by arith
  have range: "0 \<le> day" "day < 365"
    using mc d by (auto simp: day_def daysBefore_def)
  with k have kc: "k = 0 \<or> k = 1 \<or> k = 2 \<or> k = 3 \<or> k = 4 \<or> k = 5 \<or> k = 6 \<or> k = 7
      \<or> k = 8 \<or> k = 9 \<or> k = 10 \<or> k = 11"
    by arith
  have "(if day \<ge> daysBefore (k + 1) then (y, k + 2, day - daysBefore (k + 1) + 1)
         else (y, k + 1, day - daysBefore k + 1)) = (y, m, d)"
    using mc
  proof (elim disjE)
    assume "m = 1" with kc k d show ?thesis by (auto simp: day_def daysBefore_def)
  next
    assume "m = 2" with kc k d show ?thesis by (auto simp: day_def daysBefore_def)
  next
    assume "m = 3" with kc k d show ?thesis by (auto simp: day_def daysBefore_def)
  next
    assume "m = 4" with kc k d show ?thesis by (auto simp: day_def daysBefore_def)
  next
    assume "m = 5" with kc k d show ?thesis by (auto simp: day_def daysBefore_def)
  next
    assume "m = 6" with kc k d show ?thesis by (auto simp: day_def daysBefore_def)
  next
    assume "m = 7" with kc k d show ?thesis by (auto simp: day_def daysBefore_def)
  next
    assume "m = 8" with kc k d show ?thesis by (auto simp: day_def daysBefore_def)
  next
    assume "m = 9" with kc k d show ?thesis by (auto simp: day_def daysBefore_def)
  next
    assume "m = 10" with kc k d show ?thesis by (auto simp: day_def daysBefore_def)
  next
    assume "m = 11" with kc k d show ?thesis by (auto simp: day_def daysBefore_def)
  next
    assume "m = 12" with kc k d show ?thesis by (auto simp: day_def daysBefore_def)
  qed
  then show ?thesis
    unfolding Let_def day_def [symmetric] k_def [symmetric] .
qed

lemma absDate_pair:
  "absDate days =
     (case (let D = days + unixEpochDays;
                n400 = D div daysPer400Years;
                d = D - daysPer400Years * n400;
                n100 = d div daysPer100Years;
                n100 = n100 - n100 div 4;
                d = d - daysPer100Years * n100;
                n4 = d div daysPer4Years;
                d = d - daysPer4Years * n4;
                n = d div 365;
                n = n - n div 4;
                d = d - 365 * n
            in (400 * n400 + 100 * n100 + 4 * n4 + n + 1, d)) of
        (year, yday) \<Rightarrow>
          if isLeap year \<and> yday = 31 + 29 - 1 then (year, 2, 29)
          else
            let day = (if isLeap year \<and> yday > 31 + 29 - 1 then yday - 1 else yday);
                month = day div 31;
                end = daysBefore (month + 1)
            in if day \<ge> end then (year, month + 2, day - end + 1)
               else (year, month + 1, day - daysBefore month + 1))"
  unfolding absDate_def Let_def prod.case by (rule refl)

lemma mod_eq_0_upto:
  fixes x n :: int
  assumes "0 < x" "x \<le> n"
  shows "x mod n = 0 \<longleftrightarrow> x = n"
proof (cases "x = n")
  case True
  then show ?thesis by simp
next
  case False
  with assms have "x mod n = x" by simp
  with assms False show ?thesis by simp
qed

lemma isLeap_cycles:
  fixes a b c e :: int
  assumes b: "0 \<le> b" "b \<le> 3" and c: "0 \<le> c" "c \<le> 24" and e: "0 \<le> e" "e \<le> 3"
  shows "isLeap (400 * a + 100 * b + 4 * c + e + 1) \<longleftrightarrow> e = 3 \<and> (c \<noteq> 24 \<or> b = 3)"
proof -
  let ?y = "400 * a + 100 * b + 4 * c + e + 1"
  have "?y = (e + 1) + 4 * (100 * a + 25 * b + c)" by simp
  then have "?y mod 4 = (e + 1) mod 4" by (simp only: mod_mult_self2)
  with e mod_eq_0_upto [of "e + 1" 4] have m4: "?y mod 4 = 0 \<longleftrightarrow> e = 3" by simp
  have "?y = (4 * c + e + 1) + 100 * (4 * a + b)" by simp
  then have "?y mod 100 = (4 * c + e + 1) mod 100" by (simp only: mod_mult_self2)
  moreover from c e have "4 * c + e + 1 = 100 \<longleftrightarrow> c = 24 \<and> e = 3" by arith
  moreover from c e have "0 < 4 * c + e + 1" "4 * c + e + 1 \<le> 100" by simp_all
  ultimately have m100: "?y mod 100 = 0 \<longleftrightarrow> c = 24 \<and> e = 3"
    using mod_eq_0_upto [of "4 * c + e + 1" 100] by simp
  have "?y = (100 * b + 4 * c + e + 1) + 400 * a" by simp
  then have "?y mod 400 = (100 * b + 4 * c + e + 1) mod 400" by (simp only: mod_mult_self2)
  moreover from b c e have "100 * b + 4 * c + e + 1 = 400 \<longleftrightarrow> b = 3 \<and> c = 24 \<and> e = 3"
    by arith
  moreover from b c e have "0 < 100 * b + 4 * c + e + 1" "100 * b + 4 * c + e + 1 \<le> 400"
    by simp_all
  ultimately have m400: "?y mod 400 = 0 \<longleftrightarrow> b = 3 \<and> c = 24 \<and> e = 3"
    using mod_eq_0_upto [of "100 * b + 4 * c + e + 1" 400] by simp
  show ?thesis
    unfolding isLeap_def m4 m100 m400 by auto
qed

lemma year_split:
  fixes y :: int
  obtains a b c e :: int where "y = 400 * a + 100 * b + 4 * c + e + 1"
    and "0 \<le> b" "b \<le> 3" "0 \<le> c" "c \<le> 24" "0 \<le> e" "e \<le> 3"
    and "daysSinceEpoch y = 146097 * a + 36524 * b + 1461 * c + 365 * e - 719162"
proof -
  define a where "a = (y - 1) div 400"
  define r1 where "r1 = (y - 1) - 400 * a"
  define b where "b = r1 div 100"
  define r2 where "r2 = r1 - 100 * b"
  define c where "c = r2 div 4"
  define e where "e = r2 - 4 * c"
  have r1: "0 \<le> r1" "r1 < 400"
    unfolding r1_def a_def by (simp_all add: minus_mult_div_eq_mod)
  have r2: "0 \<le> r2" "r2 < 100"
    unfolding r2_def b_def by (simp_all add: minus_mult_div_eq_mod)
  have e: "0 \<le> e" "e \<le> 3"
    unfolding e_def c_def by (simp_all add: minus_mult_div_eq_mod)
  have b: "0 \<le> b" "b \<le> 3"
    unfolding b_def using r1 by simp_all
  have c: "0 \<le> c" "c \<le> 24"
    unfolding c_def using r2 by simp_all
  have y: "y = 400 * a + 100 * b + 4 * c + e + 1"
    by (simp add: e_def r2_def r1_def)
  have "daysSinceEpoch y = 146097 * a + 36524 * b + 1461 * c + 365 * e - 719162"
    unfolding daysSinceEpoch_def Let_def unixEpochDays_def daysPer400Years_def
        daysPer100Years_def daysPer4Years_def
        a_def [symmetric] r1_def [symmetric] b_def [symmetric] r2_def [symmetric]
        c_def [symmetric] e_def [symmetric]
    by simp
  with y b c e show ?thesis by (rule that)
qed

lemma daysBefore_bounds:
  fixes m :: int
  assumes "1 \<le> m" "m \<le> 12"
  shows "0 \<le> daysBefore (m - 1)" and "daysBefore m \<le> 365"
    and "28 \<le> daysBefore m - daysBefore (m - 1)"
    and "m \<le> 2 \<Longrightarrow> daysBefore m \<le> 59" and "3 \<le> m \<Longrightarrow> 59 \<le> daysBefore (m - 1)"
    and "m = 2 \<Longrightarrow> daysBefore (m - 1) = 31 \<and> daysBefore m = 59"
proof -
  from assms have "m = 1 \<or> m = 2 \<or> m = 3 \<or> m = 4 \<or> m = 5 \<or> m = 6 \<or> m = 7 \<or> m = 8
      \<or> m = 9 \<or> m = 10 \<or> m = 11 \<or> m = 12"
    by arith
  then have "0 \<le> daysBefore (m - 1) \<and> daysBefore m \<le> 365
      \<and> 28 \<le> daysBefore m - daysBefore (m - 1)
      \<and> (m \<le> 2 \<longrightarrow> daysBefore m \<le> 59) \<and> (3 \<le> m \<longrightarrow> 59 \<le> daysBefore (m - 1))
      \<and> (m = 2 \<longrightarrow> daysBefore (m - 1) = 31 \<and> daysBefore m = 59)"
    by (elim disjE) (simp_all add: daysBefore_def)
  then show "0 \<le> daysBefore (m - 1)" and "daysBefore m \<le> 365"
    and "28 \<le> daysBefore m - daysBefore (m - 1)"
    and "m \<le> 2 \<Longrightarrow> daysBefore m \<le> 59" and "3 \<le> m \<Longrightarrow> 59 \<le> daysBefore (m - 1)"
    and "m = 2 \<Longrightarrow> daysBefore (m - 1) = 31 \<and> daysBefore m = 59"
    by simp_all
qed

lemma absDate_time_Date:
  fixes y m d :: int
  assumes m: "1 \<le> m" "m \<le> 12" and d: "1 \<le> d" "d \<le> daysIn m y"
  shows "absDate (daysSinceEpoch y + daysBefore (m - 1)
                    + (if isLeap y \<and> m \<ge> 3 then 1 else 0) + (d - 1)) = (y, m, d)"
proof -
  obtain a b c e :: int where y: "y = 400 * a + 100 * b + 4 * c + e + 1"
    and b: "0 \<le> b" "b \<le> 3" and c: "0 \<le> c" "c \<le> 24" and e: "0 \<le> e" "e \<le> 3"
    and dse: "daysSinceEpoch y = 146097 * a + 36524 * b + 1461 * c + 365 * e - 719162"
    by (rule year_split)
  from b c e have leap: "isLeap y \<longleftrightarrow> e = 3 \<and> (c \<noteq> 24 \<or> b = 3)"
    unfolding y by (rule isLeap_cycles)
  note db = daysBefore_bounds [OF m]
  define adj :: int where "adj = (if isLeap y \<and> m \<ge> 3 then 1 else 0)"
  define yd where "yd = daysBefore (m - 1) + adj + (d - 1)"
  have adj: "0 \<le> adj" "adj \<le> 1" by (simp_all add: adj_def)
  have dIn: "daysIn m y = (if m = 2 \<and> isLeap y then 29 else daysBefore m - daysBefore (m - 1))"
    by (simp add: daysIn_def)
  have yd0: "0 \<le> yd"
    using db(1) adj d(1) by (simp add: yd_def)
  have yd1: "yd < 365 \<or> (yd = 365 \<and> isLeap y)"
  proof (cases "m = 2 \<and> isLeap y")
    case True
    with d dIn db(6) have "yd \<le> 59" by (simp add: yd_def adj_def)
    then show ?thesis by simp
  next
    case False
    with d dIn have "d \<le> daysBefore m - daysBefore (m - 1)" by auto
    with db(2) have "yd \<le> 364 + adj" by (simp add: yd_def)
    then show ?thesis by (cases "isLeap y \<and> m \<ge> 3") (auto simp: adj_def)
  qed
  with leap have yd2: "yd < 365 \<or> (yd = 365 \<and> e = 3 \<and> (c \<noteq> 24 \<or> b = 3))"
    by simp
  define days where "days = daysSinceEpoch y + daysBefore (m - 1) + adj + (d - 1)"
  have D: "days + unixEpochDays = 146097 * a + 36524 * b + 1461 * c + 365 * e + yd"
    by (simp add: days_def dse yd_def unixEpochDays_def)
  have body: "(if isLeap y \<and> yd = 31 + 29 - 1 then (y, 2, 29)
          else
            let day = (if isLeap y \<and> yd > 31 + 29 - 1 then yd - 1 else yd);
                month = day div 31;
                end = daysBefore (month + 1)
            in if day \<ge> end then (y, month + 2, day - end + 1)
               else (y, month + 1, day - daysBefore month + 1)) = (y, m, d)"
  proof (cases "isLeap y \<and> m = 2 \<and> d = 29")
    case True
    with db(6) show ?thesis by (simp add: yd_def adj_def)
  next
    case False
    with d dIn db(6) have d': "d \<le> daysBefore m - daysBefore (m - 1)"
      by (cases "m = 2 \<and> isLeap y") auto
    have "\<not> (isLeap y \<and> yd = 59)
        \<and> (if isLeap y \<and> yd > 59 then yd - 1 else yd) = daysBefore (m - 1) + (d - 1)"
    proof (cases "isLeap y")
      case nl: False
      then show ?thesis by (simp add: yd_def adj_def)
    next
      case l: True
      show ?thesis
      proof (cases "3 \<le> m")
        case True
        with l db(5) d(1) show ?thesis by (simp add: yd_def adj_def)
      next
        case False
        with m have m2: "m \<le> 2" by simp
        from m2 have a0: "adj = 0" by (simp add: adj_def)
        from m2 db(4) d' have "yd \<le> 58" by (simp add: yd_def a0)
        then show ?thesis by (simp add: yd_def a0)
      qed
    qed
    then have n59: "(isLeap y \<and> yd = 31 + 29 - 1) = False"
      and day: "(if isLeap y \<and> yd > 31 + 29 - 1 then yd - 1 else yd)
                  = daysBefore (m - 1) + (d - 1)"
      by simp_all
    show ?thesis
      unfolding n59 day if_False by (rule month_of_day [OF m d(1) d'])
  qed
  have "absDate days = (y, m, d)"
    unfolding absDate_pair year_cycles [OF b c e yd0 yd2 D] y [symmetric] prod.case
    by (rule body)
  then show ?thesis by (simp add: days_def adj_def)
qed

text \<open>
  \<open>time_Date\<close> of a date and a time of day, in UTC or in a fixed zone, and the date
  that \<open>Time_Date\<close> reads back from it.
\<close>

lemma unix_fixed:
  assumes l: "l = UTC \<or> l = FixedZone name offset"
  shows "(case l of
         UTC \<Rightarrow> u
       | _ \<Rightarrow>
         (case Location_lookup l u of (offset, start, end) \<Rightarrow>
            if offset \<noteq> 0 then
              u - (if u - offset < start \<or> u - offset \<ge> end
                            then fst (Location_lookup l (u - offset)) else offset)
            else u)) = u - fst (Location_lookup l 0)"
  using l by auto

lemma time_Date_normal:
  fixes y m d h mi s ns :: int
  assumes m: "1 \<le> m" "m \<le> 12"
    and h: "0 \<le> h" "h < 24" and mi: "0 \<le> mi" "mi < 60" and s: "0 \<le> s" "s < 60"
    and ns: "0 \<le> ns" "ns < 1000000000"
    and l: "l = UTC \<or> l = FixedZone name offset"
  shows "time_Date y m d h mi s ns l =
     \<lparr>unixSec = (daysSinceEpoch y + daysBefore (m - 1)
                   + (if isLeap y \<and> m \<ge> 3 then 1 else 0) + (d - 1)) * secondsPerDay
                 + (h * 3600 + mi * 60 + s) - fst (Location_lookup l 0),
      nsec = ns, loc = l\<rparr>"
proof -
  from m have n1: "norm y (m - 1) 12 = (y, m - 1)" by (simp add: norm_def)
  from ns have n2: "norm s ns 1000000000 = (s, ns)" by (simp add: norm_def)
  from s have n3: "norm mi s 60 = (mi, s)" by (simp add: norm_def)
  from mi have n4: "norm h mi 60 = (h, mi)" by (simp add: norm_def)
  from h have n5: "norm d h 24 = (d, h)" by (simp add: norm_def)
  have m1: "m - 1 + 1 = m" by simp
  have adj: "(if c then A + 1 else A) = A + (if c then 1 else 0)" for c and A :: int
    by simp
  show ?thesis
    by (simp only: time_Date_def n1 n2 n3 n4 n5 Let_def prod.case m1 adj unix_fixed [OF l])
qed

lemma Time_Date_time_Date:
  fixes y m d h mi s ns :: int
  assumes m: "1 \<le> m" "m \<le> 12" and d: "1 \<le> d" "d \<le> daysIn m y"
    and h: "0 \<le> h" "h < 24" and mi: "0 \<le> mi" "mi < 60" and s: "0 \<le> s" "s < 60"
    and ns: "0 \<le> ns" "ns < 1000000000"
    and l: "l = UTC \<or> l = FixedZone name offset"
  shows "Time_Date (time_Date y m d h mi s ns l) = (y, m, d)"
proof -
  define days where "days = daysSinceEpoch y + daysBefore (m - 1)
                   + (if isLeap y \<and> m \<ge> 3 then 1 else 0) + (d - 1)"
  define sod where "sod = h * 3600 + mi * 60 + s"
  from h mi s have sod: "0 \<le> sod" "sod < 86400" by (simp_all add: sod_def)
  define z where "z = fst (Location_lookup l 0)"
  have off: "fst (Location_lookup l x) = z" for x
    using l by (auto simp: z_def)
  have t: "time_Date y m d h mi s ns l =
      \<lparr>unixSec = days * 86400 + sod - z, nsec = ns, loc = l\<rparr>"
    unfolding time_Date_normal [OF m h mi s ns l] days_def sod_def secondsPerDay_def z_def
    by (rule refl)
  have "Time_abs (time_Date y m d h mi s ns l) = days * 86400 + sod"
    unfolding t by (simp add: Time_abs_def off)
  moreover from sod have "(days * 86400 + sod) div 86400 = days"
    by (intro div_eq_by_bounds) simp_all
  ultimately have "Time_Date (time_Date y m d h mi s ns l) = absDate days"
    by (simp add: Time_Date_def secondsPerDay_def)
  also have "absDate days = (y, m, d)"
    unfolding days_def by (rule absDate_time_Date [OF m d])
  finally show ?thesis .
qed

text \<open>
  The digits that \<open>appendInt\<close> writes for a number of two or four digits, zeros at the
  left included.
\<close>

lemma char_of_48: "char_of (48::nat) = CHR ''0''"
  by code_simp

lemma digits_less_10: "n < 10 \<Longrightarrow> digits n = [char_of (48 + n)]"
  by (subst digits.simps) simp

lemma digits_ge_10: "10 \<le> n \<Longrightarrow> digits n = digits (n div 10) @ [char_of (48 + n mod 10)]"
  by (subst digits.simps) simp

declare digits.simps [simp del]

lemma pad_step:
  assumes "1 \<le> k"
  shows "replicate (Suc k - length (digits n)) (CHR ''0'') @ digits n
           = (replicate (k - length (digits (n div 10))) (CHR ''0'') @ digits (n div 10))
               @ [char_of (48 + n mod 10)]"
proof (cases "n < 10")
  case True
  from assms obtain j where k: "k = Suc j" by (cases k) auto
  from True have "digits n = [char_of (48 + n)]" "n div 10 = 0" "n mod 10 = n"
    by (simp_all add: digits_less_10)
  moreover have "digits 0 = [CHR ''0'']"
    by (simp add: digits_less_10 char_of_48)
  ultimately show ?thesis
    by (simp add: k replicate_append_same)
next
  case False
  then show ?thesis by (simp add: digits_ge_10)
qed

lemma pad_1: "n < 10 \<Longrightarrow> replicate (1 - length (digits n)) (CHR ''0'') @ digits n
    = [char_of (48 + n)]"
  by (simp add: digits_less_10)

lemma char_of_digit:
  assumes "is_digit c"
  shows "char_of (48 + nat (digit_value c)) = c"
proof -
  from assms have "48 + nat (digit_value c) = (of_char c :: nat)"
    unfolding is_digit_of_char digit_value_of_char by arith
  then show ?thesis by simp
qed

lemma div_mod_10:
  fixes q r :: nat
  assumes "r < 10"
  shows "(10 * q + r) div 10 = q" and "(10 * q + r) mod 10 = r"
  using assms by simp_all

lemma appendInt_nat: "appendInt (int n) width
    = replicate (width - length (digits n)) (CHR ''0'') @ digits n"
  by (simp add: appendInt_def Let_def)

lemma appendInt_2_digits:
  assumes "is_digit a" "is_digit b"
  shows "appendInt (10 * digit_value a + digit_value b) 2 = [a, b]"
proof -
  define va vb where "va = nat (digit_value a)" and "vb = nat (digit_value b)"
  from digit_value_range [OF assms(1)] digit_value_range [OF assms(2)]
  have r: "digit_value a = int va" "digit_value b = int vb" and v: "va < 10" "vb < 10"
    by (auto simp: va_def vb_def)
  define n where "n = 10 * va + vb"
  have i: "10 * digit_value a + digit_value b = int n"
    by (simp add: r n_def)
  from v have dn: "n div 10 = va" and mn: "n mod 10 = vb"
    by (simp_all add: n_def)
  have s1: "replicate (Suc 1 - length (digits n)) (CHR ''0'') @ digits n
      = (replicate (1 - length (digits va)) (CHR ''0'') @ digits va) @ [char_of (48 + vb)]"
    unfolding dn [symmetric] mn [symmetric] by (rule pad_step) simp
  have e: "Suc 1 = 2" by simp
  have "replicate (2 - length (digits n)) (CHR ''0'') @ digits n
      = [char_of (48 + va), char_of (48 + vb)]"
    using s1 unfolding e pad_1 [OF v(1)] by simp
  then show ?thesis
    unfolding i appendInt_nat
    using assms by (simp add: va_def vb_def char_of_digit)
qed

lemma appendInt_4_digits:
  assumes "is_digit a" "is_digit b" "is_digit c" "is_digit d"
  shows "appendInt (1000 * digit_value a + 100 * digit_value b + 10 * digit_value c
                      + digit_value d) 4 = [a, b, c, d]"
proof -
  define va vb vc vd where "va = nat (digit_value a)" and "vb = nat (digit_value b)"
    and "vc = nat (digit_value c)" and "vd = nat (digit_value d)"
  from digit_value_range [OF assms(1)] digit_value_range [OF assms(2)]
    digit_value_range [OF assms(3)] digit_value_range [OF assms(4)]
  have r: "digit_value a = int va" "digit_value b = int vb" "digit_value c = int vc"
    "digit_value d = int vd"
    and v: "va < 10" "vb < 10" "vc < 10" "vd < 10"
    by (auto simp: va_def vb_def vc_def vd_def)
  define n2 where "n2 = 10 * va + vb"
  define n1 where "n1 = 10 * n2 + vc"
  define n where "n = 10 * n1 + vd"
  have i: "1000 * digit_value a + 100 * digit_value b + 10 * digit_value c + digit_value d
      = int n"
    by (simp add: r n_def n1_def n2_def)
  from v have d3: "n div 10 = n1" and m3: "n mod 10 = vd"
    by (simp_all add: n_def)
  from v have d2: "n1 div 10 = n2" and m2: "n1 mod 10 = vc"
    by (simp_all add: n1_def)
  from v have d1: "n2 div 10 = va" and m1: "n2 mod 10 = vb"
    by (simp_all add: n2_def)
  have s3: "replicate (Suc 3 - length (digits n)) (CHR ''0'') @ digits n
      = (replicate (3 - length (digits n1)) (CHR ''0'') @ digits n1) @ [char_of (48 + vd)]"
    unfolding d3 [symmetric] m3 [symmetric] by (rule pad_step) simp
  have s2: "replicate (Suc 2 - length (digits n1)) (CHR ''0'') @ digits n1
      = (replicate (2 - length (digits n2)) (CHR ''0'') @ digits n2) @ [char_of (48 + vc)]"
    unfolding d2 [symmetric] m2 [symmetric] by (rule pad_step) simp
  have s1: "replicate (Suc 1 - length (digits n2)) (CHR ''0'') @ digits n2
      = (replicate (1 - length (digits va)) (CHR ''0'') @ digits va) @ [char_of (48 + vb)]"
    unfolding d1 [symmetric] m1 [symmetric] by (rule pad_step) simp
  have e: "Suc 3 = 4" "Suc 2 = 3" "Suc 1 = 2" by simp_all
  have "replicate (4 - length (digits n)) (CHR ''0'') @ digits n
      = [char_of (48 + va), char_of (48 + vb), char_of (48 + vc), char_of (48 + vd)]"
    using s3 [unfolded e] s2 [unfolded e] s1 [unfolded e] pad_1 [OF v(1)]
    by (simp only: append.simps append_assoc)
  then show ?thesis
    unfolding i appendInt_nat
    using assms by (simp add: va_def vb_def vc_def vd_def char_of_digit)
qed

text \<open>Writing out the date that a string names gives the string.\<close>

lemma YYYY_MM_DD_appendInt:
  assumes "YYYY_MM_DD str = Some (y, m, d)"
  shows "appendInt y 4 @ ''-'' @ appendInt m 2 @ ''-'' @ appendInt d 2 = str"
    and "1 \<le> m" "m \<le> 12" "1 \<le> d" "d \<le> daysIn m y"
proof -
  from assms obtain y1 y2 y3 y4 m1 m2 d1 d2 where
    s: "str = [y1, y2, y3, y4, CHR ''-'', m1, m2, CHR ''-'', d1, d2]"
    and ys: "is_digit y1" "is_digit y2" "is_digit y3" "is_digit y4"
    and ms: "is_digit m1" "is_digit m2" and ds: "is_digit d1" "is_digit d2"
    and m: "1 \<le> m" "m \<le> 12" and d: "1 \<le> d" "d \<le> days_in_month y m"
    and y: "y = 1000 * digit_value y1 + 100 * digit_value y2 + 10 * digit_value y3
              + digit_value y4"
    and m': "m = 10 * digit_value m1 + digit_value m2"
    and d': "d = 10 * digit_value d1 + digit_value d2"
    unfolding YYYY_MM_DD_Some_iff by blast
  from m d show "1 \<le> m" "m \<le> 12" "1 \<le> d" "d \<le> daysIn m y"
    by (simp_all add: daysIn_days_in_month)
  show "appendInt y 4 @ ''-'' @ appendInt m 2 @ ''-'' @ appendInt d 2 = str"
    unfolding y m' d' s
    using ys ms ds by (simp add: appendInt_4_digits appendInt_2_digits)
qed

lemma Format_time_Date:
  assumes str: "YYYY_MM_DD str = Some (y, m, d)"
    and h: "0 \<le> h" "h < 24" and mi: "0 \<le> mi" "mi < 60" and s: "0 \<le> s" "s < 60"
    and ns: "0 \<le> ns" "ns < 1000000000"
    and l: "l = UTC \<or> l = FixedZone name offset"
  shows "Format_2006_01_02 (time_Date y m d h mi s ns l) = str"
proof -
  note a = YYYY_MM_DD_appendInt [OF str]
  have "Time_Date (time_Date y m d h mi s ns l) = (y, m, d)"
    using a(2-5) h mi s ns l by (rule Time_Date_time_Date)
  then have "Format_2006_01_02 (time_Date y m d h mi s ns l)
      = appendInt y 4 @ ''-'' @ appendInt m 2 @ ''-'' @ appendInt d 2"
    by (simp add: Format_2006_01_02_def)
  with a(1) show ?thesis by simp
qed

lemma UnmarshalJSON_cases:
  "UnmarshalJSON std d0 b =
     (case json_parse std b of
        Inr (JString s) \<Rightarrow>
          (case time_ParseInLocation_2006_01_02 s UTC of
             Inl err \<Rightarrow> (d0, Some err)
           | Inr t \<Rightarrow> (\<lparr>Time = t\<rparr>, None))
      | Inr JNull \<Rightarrow> (d0, Some (TimeParseError ''cannot parse year''))
      | Inr _ \<Rightarrow> (d0, Some (JSONError ''cannot unmarshal into Go value of type string''))
      | Inl err \<Rightarrow> (d0, Some err))"
  by (simp add: UnmarshalJSON_def json_Unmarshal_string_def
      time_ParseInLocation_2006_01_02_def split: sum.splits json.splits)

text \<open>
  C6. \<open>UnmarshalJSON\<close> returns no error exactly when the input is a JSON string in the
  form YYYY-MM-DD; it then sets the date to \<open>time.Date\<close> of that year, month and day
  at 0 hours, minutes, seconds and nanoseconds in UTC: a time in UTC, at a whole number
  of days, whose date is that year, month and day and is written as the string that
  was read. For every other input it returns
  an error and leaves the date as it was: a date at its zero value stays there.
\<close>

theorem UnmarshalJSON_date:
  "(snd (UnmarshalJSON std d0 b) = None \<longleftrightarrow>
      (\<exists>s y m d. json_parse std b = Inr (JString s) \<and> YYYY_MM_DD s = Some (y, m, d)))
   \<and> (\<forall>s y m d. json_parse std b = Inr (JString s) \<and> YYYY_MM_DD s = Some (y, m, d) \<longrightarrow>
         UnmarshalJSON std d0 b = (\<lparr>Time = time_Date y m d 0 0 0 0 UTC\<rparr>, None))
   \<and> (\<forall>s y m d. json_parse std b = Inr (JString s) \<and> YYYY_MM_DD s = Some (y, m, d) \<longrightarrow>
         Time_Date (Time (fst (UnmarshalJSON std d0 b))) = (y, m, d)
         \<and> Format_2006_01_02 (Time (fst (UnmarshalJSON std d0 b))) = s
         \<and> unixSec (Time (fst (UnmarshalJSON std d0 b))) mod secondsPerDay = 0
         \<and> nsec (Time (fst (UnmarshalJSON std d0 b))) = 0
         \<and> loc (Time (fst (UnmarshalJSON std d0 b))) = UTC)
   \<and> (snd (UnmarshalJSON std d0 b) \<noteq> None \<longrightarrow> fst (UnmarshalJSON std d0 b) = d0)
   \<and> (\<forall>err. snd (UnmarshalJSON std zero_Date b) = Some err \<longrightarrow>
         UnmarshalJSON std zero_Date b = (zero_Date, Some err))"
proof (intro conjI allI impI)
  show "snd (UnmarshalJSON std d0 b) = None \<longleftrightarrow>
      (\<exists>s y m d. json_parse std b = Inr (JString s) \<and> YYYY_MM_DD s = Some (y, m, d))"
  proof
    assume n: "snd (UnmarshalJSON std d0 b) = None"
    then obtain s t where "json_parse std b = Inr (JString s)"
      and "time_ParseInLocation_2006_01_02 s UTC = Inr t"
      by (auto simp: UnmarshalJSON_cases split: sum.splits json.splits)
    then show "\<exists>s y m d. json_parse std b = Inr (JString s) \<and> YYYY_MM_DD s = Some (y, m, d)"
      by (auto simp: Parse_YYYY_MM_DD)
  next
    assume "\<exists>s y m d. json_parse std b = Inr (JString s) \<and> YYYY_MM_DD s = Some (y, m, d)"
    then obtain s y m d where j: "json_parse std b = Inr (JString s)"
      and "YYYY_MM_DD s = Some (y, m, d)"
      by blast
    then have "time_ParseInLocation_2006_01_02 s UTC = Inr (time_Date y m d 0 0 0 0 UTC)"
      by (simp add: Parse_YYYY_MM_DD)
    with j show "snd (UnmarshalJSON std d0 b) = None"
      by (simp add: UnmarshalJSON_cases)
  qed
next
  fix s y m d
  assume "json_parse std b = Inr (JString s) \<and> YYYY_MM_DD s = Some (y, m, d)"
  then have j: "json_parse std b = Inr (JString s)"
    and "time_ParseInLocation_2006_01_02 s UTC = Inr (time_Date y m d 0 0 0 0 UTC)"
    by (simp_all add: Parse_YYYY_MM_DD)
  then show "UnmarshalJSON std d0 b = (\<lparr>Time = time_Date y m d 0 0 0 0 UTC\<rparr>, None)"
    by (simp add: UnmarshalJSON_cases)
next
  fix s y m d
  assume a: "json_parse std b = Inr (JString s) \<and> YYYY_MM_DD s = Some (y, m, d)"
  then have "time_ParseInLocation_2006_01_02 s UTC = Inr (time_Date y m d 0 0 0 0 UTC)"
    by (simp add: Parse_YYYY_MM_DD)
  with a have u: "fst (UnmarshalJSON std d0 b) = \<lparr>Time = time_Date y m d 0 0 0 0 UTC\<rparr>"
    by (simp add: UnmarshalJSON_cases)
  from a have m: "1 \<le> m" "m \<le> 12" and d: "1 \<le> d" "d \<le> days_in_month y m"
    by (auto simp: YYYY_MM_DD_Some_iff)
  from m d have d': "d \<le> daysIn m y"
    by (simp add: daysIn_days_in_month)
  have n: "time_Date y m d 0 0 0 0 UTC =
     \<lparr>unixSec = (daysSinceEpoch y + daysBefore (m - 1)
                   + (if isLeap y \<and> m \<ge> 3 then 1 else 0) + (d - 1)) * secondsPerDay
                 + (0 * 3600 + 0 * 60 + 0) - fst (Location_lookup UTC 0),
      nsec = 0, loc = UTC\<rparr>"
    using m by (intro time_Date_normal) simp_all
  have "Time_Date (time_Date y m d 0 0 0 0 UTC) = (y, m, d)"
    using m d(1) d' by (intro Time_Date_time_Date) simp_all
  with u show "Time_Date (Time (fst (UnmarshalJSON std d0 b))) = (y, m, d)"
    by simp
  have "Format_2006_01_02 (time_Date y m d 0 0 0 0 UTC) = s"
    using a by (intro Format_time_Date) simp_all
  with u show "Format_2006_01_02 (Time (fst (UnmarshalJSON std d0 b))) = s"
    by simp
  from u n show "unixSec (Time (fst (UnmarshalJSON std d0 b))) mod secondsPerDay = 0"
    by simp
  from u n show "nsec (Time (fst (UnmarshalJSON std d0 b))) = 0"
    by simp
  from u n show "loc (Time (fst (UnmarshalJSON std d0 b))) = UTC"
    by simp
next
  assume "snd (UnmarshalJSON std d0 b) \<noteq> None"
  then show "fst (UnmarshalJSON std d0 b) = d0"
    by (auto simp: UnmarshalJSON_cases split: sum.splits json.splits)
next
  fix err
  assume "snd (UnmarshalJSON std zero_Date b) = Some err"
  then show "UnmarshalJSON std zero_Date b = (zero_Date, Some err)"
    by (auto simp: UnmarshalJSON_cases split: sum.splits json.splits)
qed

lemma test_json_parse_date:
  "json_parse test_std (CHR 0x22 # ''2016-02-12'' @ [CHR 0x22]) = Inr (JString ''2016-02-12'')"
  by (simp add: test_std_def test_json_parse_def)

lemma test_json_parse_not_a_date:
  "json_parse test_std (CHR 0x22 # ''not-a-date'' @ [CHR 0x22]) = Inr (JString ''not-a-date'')"
  by (simp add: test_std_def test_json_parse_def)

lemma test_json_parse_false: "json_parse test_std ''false'' = Inr (JBool False)"
  by (simp add: test_std_def test_json_parse_def)

lemma test_YYYY_MM_DD: "YYYY_MM_DD ''2016-02-12'' = Some (2016, 2, 12)"
  by (simp add: YYYY_MM_DD_def is_digit_def less_eq_char_def digit_value_def
      days_in_month_def leap_year_def)

lemma test_YYYY_MM_DD_not_a_date: "YYYY_MM_DD ''not-a-date'' = None"
  by (simp add: YYYY_MM_DD_def is_digit_def less_eq_char_def)

lemma test_time_Date:
  "time_Date 2016 2 12 0 0 0 0 UTC = \<lparr>unixSec = 1455235200, nsec = 0, loc = UTC\<rparr>"
  by (simp add: time_Date_def norm_def daysSinceEpoch_def daysBefore_def isLeap_def
      secondsPerDay_def daysPer400Years_def daysPer100Years_def daysPer4Years_def
      unixEpochDays_def)

theorem UnmarshalJSON_date_witness:
  "UnmarshalJSON test_std zero_Date (CHR 0x22 # ''2016-02-12'' @ [CHR 0x22])
     = (\<lparr>Time = \<lparr>unixSec = 1455235200, nsec = 0, loc = UTC\<rparr>\<rparr>, None)
   \<and> (\<exists>err. UnmarshalJSON test_std zero_Date ''false'' = (zero_Date, Some err))
   \<and> (\<exists>err. UnmarshalJSON test_std zero_Date (CHR 0x22 # ''not-a-date'' @ [CHR 0x22])
              = (zero_Date, Some err))"
proof (intro conjI)
  show "UnmarshalJSON test_std zero_Date (CHR 0x22 # ''2016-02-12'' @ [CHR 0x22])
     = (\<lparr>Time = \<lparr>unixSec = 1455235200, nsec = 0, loc = UTC\<rparr>\<rparr>, None)"
    using UnmarshalJSON_date [of test_std zero_Date "CHR 0x22 # ''2016-02-12'' @ [CHR 0x22]"]
      test_json_parse_date test_YYYY_MM_DD test_time_Date
    by simp
next
  have "snd (UnmarshalJSON test_std zero_Date ''false'') \<noteq> None"
    using UnmarshalJSON_date [of test_std zero_Date "''false''"] test_json_parse_false
    by simp
  then obtain err where "snd (UnmarshalJSON test_std zero_Date ''false'') = Some err"
    by auto
  with UnmarshalJSON_date [of test_std zero_Date "''false''"]
  show "\<exists>err. UnmarshalJSON test_std zero_Date ''false'' = (zero_Date, Some err)"
    by blast
next
  let ?b = "CHR 0x22 # ''not-a-date'' @ [CHR 0x22]"
  have "snd (UnmarshalJSON test_std zero_Date ?b) \<noteq> None"
    using UnmarshalJSON_date [of test_std zero_Date ?b]
      test_json_parse_not_a_date test_YYYY_MM_DD_not_a_date
    by simp
  then obtain err where "snd (UnmarshalJSON test_std zero_Date ?b) = Some err"
    by auto
  with UnmarshalJSON_date [of test_std zero_Date ?b]
  show "\<exists>err. UnmarshalJSON test_std zero_Date ?b = (zero_Date, Some err)"
    by blast
qed

section \<open>The date in the path\<close>

text \<open>
  A time built by \<open>time_Date\<close> from a year and an offset of 32 bits lies far inside
  the range of 64 bits.
\<close>

lemma daysSinceEpoch_bounds:
  assumes "fits_int32 y"
  shows "- 1000000000000 \<le> daysSinceEpoch y" and "daysSinceEpoch y \<le> 1000000000000"
proof -
  obtain a b c e :: int where y: "y = 400 * a + 100 * b + 4 * c + e + 1"
    and b: "0 \<le> b" "b \<le> 3" and c: "0 \<le> c" "c \<le> 24" and e: "0 \<le> e" "e \<le> 3"
    and dse: "daysSinceEpoch y = 146097 * a + 36524 * b + 1461 * c + 365 * e - 719162"
    by (rule year_split)
  from assms have r: "- 2147483648 \<le> y" "y < 2147483648"
    by (simp_all add: fits_int32_def)
  from r y b c e have a: "- 5368710 \<le> a" "a \<le> 5368710"
    by arith+
  from a b c e show "- 1000000000000 \<le> daysSinceEpoch y"
    unfolding dse by arith
  from a b c e show "daysSinceEpoch y \<le> 1000000000000"
    unfolding dse by arith
qed

lemma daysIn_le:
  fixes m :: int
  assumes "1 \<le> m" "m \<le> 12"
  shows "daysIn m y \<le> 365"
  using daysBefore_bounds(1,2) [OF assms] by (simp add: daysIn_def)

lemma time_Date_no_overflow:
  fixes y m d h mi s ns :: int
  assumes y: "fits_int32 y"
    and m: "1 \<le> m" "m \<le> 12" and d: "1 \<le> d" "d \<le> daysIn m y"
    and h: "0 \<le> h" "h < 24" and mi: "0 \<le> mi" "mi < 60" and s: "0 \<le> s" "s < 60"
    and ns: "0 \<le> ns" "ns < 1000000000"
    and l: "l = UTC \<or> l = FixedZone name offset \<and> fits_int32 offset"
  shows "no_overflow (time_Date y m d h mi s ns l)"
proof -
  define days where "days = daysSinceEpoch y + daysBefore (m - 1)
                   + (if isLeap y \<and> m \<ge> 3 then 1 else 0) + (d - 1)"
  define sod where "sod = h * 3600 + mi * 60 + s"
  from h mi s have sod: "0 \<le> sod" "sod < 86400" by (simp_all add: sod_def)
  define z where "z = fst (Location_lookup l 0)"
  from l have l': "l = UTC \<or> l = FixedZone name offset" by blast
  have off: "fst (Location_lookup l x) = z" for x
    using l' by (auto simp: z_def)
  from l have z: "- 2147483648 \<le> z" "z < 2147483648"
    by (auto simp: z_def fits_int32_def)
  have t: "time_Date y m d h mi s ns l =
      \<lparr>unixSec = days * 86400 + sod - z, nsec = ns, loc = l\<rparr>"
    unfolding time_Date_normal [OF m h mi s ns l'] days_def sod_def secondsPerDay_def z_def
    by (rule refl)
  have a: "Time_abs (time_Date y m d h mi s ns l) = days * 86400 + sod"
    unfolding t by (simp add: Time_abs_def off)
  have u: "unixSec (time_Date y m d h mi s ns l) = days * 86400 + sod - z"
    unfolding t by simp
  from daysBefore_bounds(1-3) [OF m]
  have "0 \<le> daysBefore (m - 1)" "daysBefore (m - 1) \<le> 365"
    by simp_all
  moreover from d daysIn_le [OF m, of y] have "0 \<le> d - 1" "d - 1 \<le> 365" by simp_all
  moreover note daysSinceEpoch_bounds [OF y]
  ultimately have days: "- 1000000000000 \<le> days" "days \<le> 1000000001000"
    by (simp_all add: days_def)
  from days sod z show ?thesis
    unfolding no_overflow_def a u by simp
qed

lemma YYYY_MM_DD_year:
  assumes "YYYY_MM_DD str = Some (y, m, d)"
  shows "0 \<le> y" and "y \<le> 9999" and "fits_int32 y"
proof -
  from assms obtain y1 y2 y3 y4 where
    ys: "is_digit y1" "is_digit y2" "is_digit y3" "is_digit y4"
    and y: "y = 1000 * digit_value y1 + 100 * digit_value y2 + 10 * digit_value y3
              + digit_value y4"
    unfolding YYYY_MM_DD_Some_iff by blast
  from digit_value_range [OF ys(1)] digit_value_range [OF ys(2)]
    digit_value_range [OF ys(3)] digit_value_range [OF ys(4)]
  show "0 \<le> y" and "y \<le> 9999"
    unfolding y by simp_all
  then show "fits_int32 y"
    by (simp add: fits_int32_def)
qed

lemma no_overflow_UTC:
  assumes "no_overflow t"
  shows "no_overflow (Time_UTC t)"
  using assms by (simp add: no_overflow_def Time_UTC_def Time_In_def Time_abs_def)

lemma test_date_EST: "date test_Client test_Time_EST = ''2020-01-01''"
  by code_simp

lemma test_date_EST_UTC: "date test_Client (Time_UTC test_Time_EST) = ''2020-01-02''"
  by code_simp

lemma test_appendInt: "appendInt 2020 4 @ ''-'' @ appendInt 1 2 @ ''-'' @ appendInt 1 2 = ''2020-01-01''"
  by code_simp

lemma test_YYYY_MM_DD_2020: "YYYY_MM_DD ''2020-01-01'' = Some (2020, 1, 1)"
  by code_simp

lemma test_noon_EST:
  "no_overflow \<lparr>unixSec = 1577898000, nsec = 0, loc = FixedZone ''EST'' (- 18000)\<rparr>
   \<and> Time_abs \<lparr>unixSec = 1577898000, nsec = 0, loc = FixedZone ''EST'' (- 18000)\<rparr>
         div secondsPerDay
       = unixSec \<lparr>unixSec = 1577898000, nsec = 0, loc = FixedZone ''EST'' (- 18000)\<rparr>
         div secondsPerDay
   \<and> date test_Client
         (Time_UTC \<lparr>unixSec = 1577898000, nsec = 0, loc = FixedZone ''EST'' (- 18000)\<rparr>)
       = ''2020-01-01''"
  by code_simp

lemma test_no_overflow: "no_overflow test_Time_EST \<and> no_overflow (Time_UTC test_Time_EST)"
  by code_simp

text \<open>
  C2, as stated, fails: \<open>date\<close> formats the time in its own location and does not
  convert it to UTC first. At 23:30 on 2020-01-01 in a zone five hours west of UTC,
  which is 04:30 on 2020-01-02 in UTC, the path is that of 2020-01-01. The time is of
  our days, far from the ends of the range of 64 bits.
\<close>

theorem date_UTC_counterexample:
  "date test_Client test_Time_EST \<noteq> date test_Client (Time_UTC test_Time_EST)
   \<and> Client_At test_std test_Client Background test_Time_EST []
       = get test_std test_Client Background ''/2020-01-01'' (query test_Client [])
   \<and> Client_At test_std test_Client Background (Time_UTC test_Time_EST) []
       = get test_std test_Client Background ''/2020-01-02'' (query test_Client [])
   \<and> no_overflow test_Time_EST \<and> no_overflow (Time_UTC test_Time_EST)"
  by (simp add: Client_At_def test_date_EST test_date_EST_UTC test_no_overflow)

text \<open>
  C2, amended. For a time in the range in which the library does not wrap around,
  \<open>At\<close> uses as path \<open>/\<close> followed by the date of the time in the location of the
  time: the year in at least four digits, the month and the day in two, separated by
  \<open>-\<close>. It is the date in UTC when the day in the location is the day in UTC, as for
  every time in UTC. A time built by \<open>time.Date\<close> from a date and a time of day, in
  UTC or in a fixed zone, the year and the offset of the zone fitting in 32 bits, is
  in that range, and the path is that date, whatever the time of day and the zone:
  the string YYYY-MM-DD itself when the date is the one that such a string names.
\<close>

theorem At_path_is_local_date:
  "(no_overflow t \<longrightarrow>
       Client_At std c ctx t attributes
         = get std c ctx (''/'' @ date c t) (query c attributes)
     \<and> date c t =
         (case Time_Date t of (y, m, d) \<Rightarrow>
            appendInt y 4 @ ''-'' @ appendInt m 2 @ ''-'' @ appendInt d 2)
     \<and> no_overflow (Time_UTC t)
     \<and> (Time_abs t div secondsPerDay = unixSec t div secondsPerDay \<longrightarrow>
           date c t = date c (Time_UTC t))
     \<and> (loc t = UTC \<longrightarrow> date c t = date c (Time_UTC t)))
   \<and> (\<forall>y m d h mi s ns l.
         fits_int32 y \<and> 1 \<le> m \<and> m \<le> 12 \<and> 1 \<le> d \<and> d \<le> daysIn m y
         \<and> 0 \<le> h \<and> h < 24 \<and> 0 \<le> mi \<and> mi < 60 \<and> 0 \<le> s \<and> s < 60
         \<and> 0 \<le> ns \<and> ns < 1000000000
         \<and> (l = UTC \<or> (\<exists>name offset. l = FixedZone name offset \<and> fits_int32 offset)) \<longrightarrow>
         no_overflow (time_Date y m d h mi s ns l)
         \<and> date c (time_Date y m d h mi s ns l)
             = appendInt y 4 @ ''-'' @ appendInt m 2 @ ''-'' @ appendInt d 2)
   \<and> (\<forall>str y m d h mi s ns l.
         YYYY_MM_DD str = Some (y, m, d)
         \<and> 0 \<le> h \<and> h < 24 \<and> 0 \<le> mi \<and> mi < 60 \<and> 0 \<le> s \<and> s < 60
         \<and> 0 \<le> ns \<and> ns < 1000000000
         \<and> (l = UTC \<or> (\<exists>name offset. l = FixedZone name offset \<and> fits_int32 offset)) \<longrightarrow>
         no_overflow (time_Date y m d h mi s ns l)
         \<and> date c (time_Date y m d h mi s ns l) = str)"
proof (intro conjI allI impI)
  show "Client_At std c ctx t attributes
          = get std c ctx (''/'' @ date c t) (query c attributes)"
    by (simp add: Client_At_def)
next
  show "date c t =
       (case Time_Date t of (y, m, d) \<Rightarrow>
          appendInt y 4 @ ''-'' @ appendInt m 2 @ ''-'' @ appendInt d 2)"
    by (simp add: date_def Format_2006_01_02_def)
next
  assume "no_overflow t"
  then show "no_overflow (Time_UTC t)"
    by (rule no_overflow_UTC)
next
  assume "Time_abs t div secondsPerDay = unixSec t div secondsPerDay"
  then show "date c t = date c (Time_UTC t)"
    by (simp add: date_def Format_2006_01_02_def Time_Date_def Time_abs_def
        Time_UTC_def Time_In_def)
next
  assume "loc t = UTC"
  then show "date c t = date c (Time_UTC t)"
    by (simp add: date_def Format_2006_01_02_def Time_Date_def Time_abs_def
        Time_UTC_def Time_In_def)
next
  fix y m d h mi s ns :: int and l
  assume a: "fits_int32 y \<and> 1 \<le> m \<and> m \<le> 12 \<and> 1 \<le> d \<and> d \<le> daysIn m y
         \<and> 0 \<le> h \<and> h < 24 \<and> 0 \<le> mi \<and> mi < 60 \<and> 0 \<le> s \<and> s < 60
         \<and> 0 \<le> ns \<and> ns < 1000000000
         \<and> (l = UTC \<or> (\<exists>name offset. l = FixedZone name offset \<and> fits_int32 offset))"
  then obtain name offset where
    l: "l = UTC \<or> l = FixedZone name offset \<and> fits_int32 offset"
    by blast
  from a l show "no_overflow (time_Date y m d h mi s ns l)"
    by (intro time_Date_no_overflow [where name = name and offset = offset]) simp_all
  from l have "l = UTC \<or> l = FixedZone name offset"
    by blast
  with a have "Time_Date (time_Date y m d h mi s ns l) = (y, m, d)"
    by (intro Time_Date_time_Date [where name = name and offset = offset]) simp_all
  then show "date c (time_Date y m d h mi s ns l)
           = appendInt y 4 @ ''-'' @ appendInt m 2 @ ''-'' @ appendInt d 2"
    by (simp add: date_def Format_2006_01_02_def)
next
  fix str and y m d h mi s ns :: int and l
  assume a: "YYYY_MM_DD str = Some (y, m, d)
         \<and> 0 \<le> h \<and> h < 24 \<and> 0 \<le> mi \<and> mi < 60 \<and> 0 \<le> s \<and> s < 60
         \<and> 0 \<le> ns \<and> ns < 1000000000
         \<and> (l = UTC \<or> (\<exists>name offset. l = FixedZone name offset \<and> fits_int32 offset))"
  then obtain name offset where
    l: "l = UTC \<or> l = FixedZone name offset \<and> fits_int32 offset"
    by blast
  from a have str: "YYYY_MM_DD str = Some (y, m, d)"
    by simp
  note b = YYYY_MM_DD_appendInt [OF str]
  from a l b(2-5) YYYY_MM_DD_year(3) [OF str]
  show "no_overflow (time_Date y m d h mi s ns l)"
    by (intro time_Date_no_overflow [where name = name and offset = offset]) simp_all
  from l have "l = UTC \<or> l = FixedZone name offset"
    by blast
  with a have "Format_2006_01_02 (time_Date y m d h mi s ns l) = str"
    by (intro Format_time_Date [where name = name and offset = offset]) simp_all
  then show "date c (time_Date y m d h mi s ns l) = str"
    by (simp add: date_def)
qed

theorem At_path_is_local_date_witness:
  "no_overflow (time_Date 2020 1 1 23 30 0 0 (FixedZone ''EST'' (- 18000)))
   \<and> date test_Client (time_Date 2020 1 1 23 30 0 0 (FixedZone ''EST'' (- 18000)))
       = ''2020-01-01''
   \<and> Client_At test_std test_Client Background
        (time_Date 2020 1 1 23 30 0 0 (FixedZone ''EST'' (- 18000))) []
       = get test_std test_Client Background ''/2020-01-01'' (query test_Client [])
   \<and> date test_Client (time_Date 2020 1 1 23 30 0 0 (FixedZone ''EST'' (- 18000)))
       = appendInt 2020 4 @ ''-'' @ appendInt 1 2 @ ''-'' @ appendInt 1 2
   \<and> date test_Client
         \<lparr>unixSec = 1577898000, nsec = 0, loc = FixedZone ''EST'' (- 18000)\<rparr>
       = ''2020-01-01''"
proof -
  let ?l = "FixedZone ''EST'' (- 18000)"
  let ?t = "time_Date 2020 1 1 23 30 0 0 ?l"
  let ?n = "\<lparr>unixSec = 1577898000, nsec = 0, loc = ?l\<rparr>"
  note th = At_path_is_local_date [of ?t test_std test_Client Background "[]"]
  have l: "?l = UTC \<or> (\<exists>name offset. ?l = FixedZone name offset \<and> fits_int32 offset)"
    by (simp add: fits_int32_def)
  have "YYYY_MM_DD ''2020-01-01'' = Some (2020, 1, 1)
         \<and> (0::int) \<le> 23 \<and> (23::int) < 24 \<and> (0::int) \<le> 30 \<and> (30::int) < 60
         \<and> (0::int) \<le> 0 \<and> (0::int) < 60
         \<and> (0::int) \<le> 0 \<and> (0::int) < 1000000000
         \<and> (?l = UTC \<or> (\<exists>name offset. ?l = FixedZone name offset \<and> fits_int32 offset))"
    using l by (simp add: test_YYYY_MM_DD_2020)
  from th [THEN conjunct2, THEN conjunct2, THEN spec, THEN spec, THEN spec, THEN spec,
      THEN spec, THEN spec, THEN spec, THEN spec, THEN spec, THEN mp, OF this]
  have n: "no_overflow ?t" and d: "date test_Client ?t = ''2020-01-01''"
    by blast+
  have "fits_int32 2020 \<and> (1::int) \<le> 1 \<and> (1::int) \<le> 12 \<and> (1::int) \<le> 1
         \<and> 1 \<le> daysIn 1 2020
         \<and> (0::int) \<le> 23 \<and> (23::int) < 24 \<and> (0::int) \<le> 30 \<and> (30::int) < 60
         \<and> (0::int) \<le> 0 \<and> (0::int) < 60
         \<and> (0::int) \<le> 0 \<and> (0::int) < 1000000000
         \<and> (?l = UTC \<or> (\<exists>name offset. ?l = FixedZone name offset \<and> fits_int32 offset))"
    using l by (simp add: daysIn_def daysBefore_def fits_int32_def)
  from th [THEN conjunct2, THEN conjunct1, THEN spec, THEN spec, THEN spec, THEN spec,
      THEN spec, THEN spec, THEN spec, THEN spec, THEN mp, OF this]
  have a: "date test_Client ?t
      = appendInt 2020 4 @ ''-'' @ appendInt 1 2 @ ''-'' @ appendInt 1 2"
    by blast
  from th [THEN conjunct1, THEN mp, OF n, THEN conjunct1]
  have p: "Client_At test_std test_Client Background ?t []
       = get test_std test_Client Background (''/'' @ date test_Client ?t)
           (query test_Client [])" .
  from test_noon_EST have "no_overflow ?n"
    and e: "Time_abs ?n div secondsPerDay = unixSec ?n div secondsPerDay"
    and u: "date test_Client (Time_UTC ?n) = ''2020-01-01''"
    by blast+
  from At_path_is_local_date [of ?n test_std test_Client Background "[]",
      THEN conjunct1, THEN mp, OF this(1),
      THEN conjunct2, THEN conjunct2, THEN conjunct2, THEN conjunct1, THEN mp, OF e]
  have "date test_Client ?n = date test_Client (Time_UTC ?n)" .
  with u have "date test_Client ?n = ''2020-01-01''"
    by simp
  with n d a p show ?thesis by simp
qed

end
